theory Spec2Isabelle
  imports Main "HOL-Library.AList" "HOL-Library.Multiset"
begin

section \<open>JavaScript values, truthiness and objects\<close>

text \<open>
  The header maps of \<^verbatim>\<open>peer-dial.ts\<close> are plain objects of type
  \<^verbatim>\<open>Record<string, unknown>\<close>. A value is one of the primitives the code tests
  for with \<^verbatim>\<open>typeof\<close>, or an opaque object (arrays and functions included).
  Numbers are modelled by the integers: header values such as 7337 are integral, and
  the only thing the code asks of a number is whether it is falsy. An object is the
  association list of its own properties, in insertion order with distinct keys; what
  it inherits from \<^verbatim>\<open>Object.prototype\<close> is the same for every object and is given
  below.
\<close>

datatype jsval = JUndefined | JNull | JBool bool | JNum int | JStr string | JObject

fun truthy :: "jsval \<Rightarrow> bool" where
  "truthy JUndefined = False"
| "truthy JNull = False"
| "truthy (JBool b) = b"
| "truthy (JNum n) = (n \<noteq> 0)"
| "truthy (JStr s) = (s \<noteq> [])"
| "truthy JObject = True"

text \<open>The operator \<^verbatim>\<open>a || b\<close>: the left operand when it is truthy, else the right one.\<close>

definition js_or :: "jsval \<Rightarrow> jsval \<Rightarrow> jsval" where
  "js_or a b = (if truthy a then a else b)"

type_synonym jsobj = "(string \<times> jsval) list"

text \<open>
  The value an object holds under a key of its own, \<^verbatim>\<open>undefined\<close> when it owns no
  such key. This is how the headers of a message are looked at below.
\<close>

definition js_get :: "jsobj \<Rightarrow> string \<Rightarrow> jsval" where
  "js_get obj key = (case map_of obj key of None \<Rightarrow> JUndefined | Some v \<Rightarrow> v)"

definition js_keys :: "jsobj \<Rightarrow> string list" where
  "js_keys obj = map fst obj"

text \<open>
  The names of the members of \<^verbatim>\<open>Object.prototype\<close> in Node: every object created
  by \<^verbatim>\<open>{}\<close> or by an object literal inherits them. All are functions but
  \<^verbatim>\<open>__proto__\<close>, an accessor that reads as \<^verbatim>\<open>Object.prototype\<close> itself.
\<close>

definition Object_prototype_members :: "string list" where
  "Object_prototype_members =
     [''constructor'', ''__defineGetter__'', ''__defineSetter__'', ''hasOwnProperty'',
      ''__lookupGetter__'', ''__lookupSetter__'', ''isPrototypeOf'', ''propertyIsEnumerable'',
      ''toString'', ''valueOf'', ''__proto__'', ''toLocaleString'']"

text \<open>
  \<^verbatim>\<open>obj[key]\<close>, read: the object's own value, else the inherited member, which is an
  object and so truthy, else \<^verbatim>\<open>undefined\<close>.
\<close>

definition js_read :: "jsobj \<Rightarrow> string \<Rightarrow> jsval" where
  "js_read obj key =
     (case map_of obj key of
        Some v \<Rightarrow> v
      | None \<Rightarrow> if key \<in> set Object_prototype_members then JObject else JUndefined)"

text \<open>
  \<^verbatim>\<open>obj[key] = v\<close>: overwrites in place or appends a new key. An assignment to
  \<^verbatim>\<open>__proto__\<close> on an object that owns no such key goes to the inherited setter and
  adds no property; the code only ever assigns a primitive there, which the setter
  ignores, or \<^verbatim>\<open>Object.prototype\<close> itself, which changes nothing.
\<close>

definition js_write :: "jsobj \<Rightarrow> string \<Rightarrow> jsval \<Rightarrow> jsobj" where
  "js_write obj key v =
     (if key = ''__proto__'' \<and> map_of obj key = None then obj else AList.update key v obj)"

subsection \<open>getExtraHeaders\<close>

fun getExtraHeaders_loop :: "(string \<times> jsval) list \<Rightarrow> jsobj \<Rightarrow> jsobj" where
  "getExtraHeaders_loop [] extraHeaders = extraHeaders"
| "getExtraHeaders_loop ((key, JNum n) # rest) extraHeaders =
     getExtraHeaders_loop rest (js_write extraHeaders key (JNum n))"
| "getExtraHeaders_loop ((key, JStr s) # rest) extraHeaders =
     getExtraHeaders_loop rest (js_write extraHeaders key (JStr s))"
| "getExtraHeaders_loop ((key, JBool b) # rest) extraHeaders =
     getExtraHeaders_loop rest (js_write extraHeaders key (JBool b))"
| "getExtraHeaders_loop ((key, _) # rest) extraHeaders =
     getExtraHeaders_loop rest extraHeaders"

text \<open>The argument is \<open>None\<close> when \<^verbatim>\<open>dict\<close> is not an object or is null.\<close>

definition getExtraHeaders :: "jsobj option \<Rightarrow> jsobj" where
  "getExtraHeaders dict = (case dict of None \<Rightarrow> [] | Some d \<Rightarrow> getExtraHeaders_loop d [])"

subsection \<open>merge\<close>

text \<open>
  \<^verbatim>\<open>for (const key in obj2) { const val1 = obj1[key]; obj1[key] = val1 || obj2[key]; }\<close>
  The loop runs over the keys of \<^verbatim>\<open>obj2\<close> and mutates \<^verbatim>\<open>obj1\<close>, which is returned.
  Where \<^verbatim>\<open>obj1\<close> owns no such key but inherits a member of that name, \<^verbatim>\<open>val1\<close> is
  that member, and it is what is stored.
\<close>

fun merge_loop :: "string list \<Rightarrow> jsobj \<Rightarrow> jsobj \<Rightarrow> jsobj" where
  "merge_loop [] obj1 obj2 = obj1"
| "merge_loop (key # keys) obj1 obj2 =
     merge_loop keys (js_write obj1 key (js_or (js_read obj1 key) (js_read obj2 key))) obj2"

definition merge :: "jsobj \<Rightarrow> jsobj \<Rightarrow> jsobj" where
  "merge obj1 obj2 = merge_loop (js_keys obj2) obj1 obj2"

section \<open>Rendering in template strings\<close>

text \<open>\<^verbatim>\<open>String(n)\<close> for an integral number: its decimal digits.\<close>

fun decimal :: "nat \<Rightarrow> string" where
  "decimal n =
     (if 10 \<le> n then decimal (n div 10) @ [''0123456789'' ! (n mod 10)]
      else [''0123456789'' ! n])"

declare decimal.simps [simp del]

definition String_number :: "int \<Rightarrow> string" where
  "String_number i = (if 0 \<le> i then decimal (nat i) else CHR ''-'' # decimal (nat (- i)))"

text \<open>A value of type \<^verbatim>\<open>number | null\<close> inside a template string.\<close>

definition template_number :: "int option \<Rightarrow> string" where
  "template_number n = (case n of None \<Rightarrow> ''null'' | Some i \<Rightarrow> String_number i)"

text \<open>\<^verbatim>\<open>a || b\<close> where \<^verbatim>\<open>a\<close> is an optional string and \<^verbatim>\<open>b\<close> a string.\<close>

definition str_or :: "string option \<Rightarrow> string \<Rightarrow> string" where
  "str_or a b = (case a of None \<Rightarrow> b | Some s \<Rightarrow> if s \<noteq> [] then s else b)"

section \<open>Server: data model\<close>

text \<open>What the module reads from \<^verbatim>\<open>os\<close> and \<^verbatim>\<open>crypto\<close>.\<close>

record os_env =
  os_type :: string
  os_release :: string
  os_hostname :: string
  randomUUID :: string

definition SERVER_STR :: "os_env \<Rightarrow> string" where
  "SERVER_STR os = os_type os @ ''/'' @ os_release os @ '' UPnP/1.1 famium/0.0.1''"

text \<open>
  \<^verbatim>\<open>AppInfo\<close>. An optional field is \<open>None\<close> when it is undefined or null; the code
  never tells the two apart.
\<close>

record AppInfo =
  name :: string
  state :: "string option"
  pid :: "string option"
  allowStop :: "bool option"
  additionalData :: "(string \<times> string) list option"
  namespaces :: "(string \<times> string) list option"

text \<open>
  \<^verbatim>\<open>DialRequest\<close>: the fields of the Express request the handlers read.
  \<open>req_text\<close> and \<open>req_length\<close> are set by the body-reading middleware, and
  stay undefined for a request whose content type it does not read.
\<close>

record DialRequest =
  req_protocol :: string
  req_hostname :: "string option"
  req_ip :: "string option"
  req_text :: "string option"
  req_length :: "nat option"

datatype js_error = Error string "string option"

text \<open>
  \<^verbatim>\<open>ServerDelegate\<close>. The application state belongs to the provider: it is the
  parameter \<open>'s\<close>, read by \<open>getApp\<close> and changed by the two other hooks. A hook
  completes by calling its callback; the arguments of that call are the hook's result,
  and \<open>None\<close> stands for a hook that never calls back. Each hook is \<open>None\<close> in
  the delegate when the options gave no function for it.
\<close>

record 's ServerDelegate =
  getApp :: "('s \<Rightarrow> DialRequest \<Rightarrow> string \<Rightarrow> AppInfo option) option"
  launchApp :: "('s \<Rightarrow> DialRequest \<Rightarrow> string \<Rightarrow> string option
                  \<Rightarrow> 's \<times> (string option \<times> js_error option) option) option"
  stopApp :: "('s \<Rightarrow> DialRequest \<Rightarrow> string \<Rightarrow> string \<Rightarrow> 's \<times> bool option) option"

record 's Server =
  prefix :: string
  port :: "int option"
  host :: "string option"
  uuid :: string
  friendlyName :: string
  manufacturer :: string
  modelName :: string
  maxContentLength :: int
  extraHeaders :: jsobj
  delegate :: "'s ServerDelegate"

text \<open>
  \<^verbatim>\<open>ServerOptions\<close>. \<open>opt_maxContentLength\<close> is what \<^verbatim>\<open>parseInt\<close> makes of
  the option: \<open>None\<close> for NaN.
\<close>

record 's ServerOptions =
  opt_prefix :: "string option"
  opt_port :: "int option"
  opt_host :: "string option"
  opt_uuid :: "string option"
  opt_friendlyName :: "string option"
  opt_manufacturer :: "string option"
  opt_modelName :: "string option"
  opt_maxContentLength :: "int option"
  opt_extraHeaders :: "jsobj option"
  opt_delegate :: "'s ServerDelegate option"

definition new_Server :: "os_env \<Rightarrow> 's ServerOptions \<Rightarrow> 's Server" where
  "new_Server os options =
     \<lparr> prefix = str_or (opt_prefix options) [],
       port = opt_port options,
       host = opt_host options,
       uuid = str_or (opt_uuid options) (randomUUID os),
       friendlyName = str_or (opt_friendlyName options) (str_or (Some (os_hostname os)) ''unknown''),
       manufacturer = str_or (opt_manufacturer options) ''unknown manufacturer'',
       modelName = str_or (opt_modelName options) ''unknown model'',
       maxContentLength =
         max (case opt_maxContentLength options of
                None \<Rightarrow> 4096
              | Some n \<Rightarrow> if n \<noteq> 0 then n else 4096) 4096,
       extraHeaders = getExtraHeaders (opt_extraHeaders options),
       delegate =
         (case opt_delegate options of
            None \<Rightarrow> \<lparr> getApp = None, launchApp = None, stopApp = None \<rparr>
          | Some d \<Rightarrow> d) \<rparr>"

section \<open>Server: advertising and withdrawal\<close>

definition serviceTypes :: "'s Server \<Rightarrow> string list" where
  "serviceTypes srv =
     [''urn:dial-multiscreen-org:service:dial:1'',
      ''urn:dial-multiscreen-org:device:dial:1'',
      ''upnp:rootdevice'',
      ''ssdp:all'',
      ''uuid:'' @ uuid srv]"

definition location :: "'s Server \<Rightarrow> string" where
  "location srv =
     ''http://{{networkInterfaceAddress}}:'' @ template_number (port srv) @ prefix srv
       @ ''/ssdp/device-desc.xml''"

text \<open>The calls the server makes on the SSDP peer.\<close>

datatype peer_call =
    Peer_start
  | Peer_close
  | Peer_alive jsobj
  | Peer_byebye jsobj
  | Peer_reply jsobj string

text \<open>
  The object literal of one alive or byebye message, for the service type \<open>st\<close>,
  before the extra headers are merged into it.
\<close>

definition notify_base :: "os_env \<Rightarrow> 's Server \<Rightarrow> string \<Rightarrow> jsobj" where
  "notify_base os srv st =
     [(''NT'', JStr st),
      (''USN'', JStr (''uuid:'' @ uuid srv @ ''::'' @ st)),
      (''SERVER'', JStr (SERVER_STR os)),
      (''LOCATION'', JStr (location srv))]"

text \<open>The headers of one alive or byebye message, for the service type \<open>st\<close>.\<close>

definition notify_headers :: "os_env \<Rightarrow> 's Server \<Rightarrow> string \<Rightarrow> jsobj" where
  "notify_headers os srv st = merge (notify_base os srv st) (extraHeaders srv)"

text \<open>
  \<^verbatim>\<open>Server.stop\<close>: one byebye per service type, each given the callback
  \<^verbatim>\<open>done\<close>, and the counter \<^verbatim>\<open>remaining\<close> that the callbacks share. The result is
  the calls made on the peer and the counter's initial value.
\<close>

definition stop :: "os_env \<Rightarrow> 's Server \<Rightarrow> peer_call list \<times> int" where
  "stop os srv =
     (map (\<lambda>st. Peer_byebye (notify_headers os srv st)) (serviceTypes srv),
      int (length (serviceTypes srv)))"

text \<open>
  The callback \<^verbatim>\<open>done\<close> of \<^verbatim>\<open>Server.stop\<close>, on the counter: the new counter and the
  calls it makes on the peer.
\<close>

definition done_cb :: "int \<Rightarrow> int \<times> peer_call list" where
  "done_cb remaining =
     (let r = remaining - 1 in (r, if r \<le> 0 then [Peer_close] else []))"

text \<open>
  The peer acknowledges the byebye messages in some order; \<open>acks\<close> names the
  acknowledged messages in the order of arrival. Every acknowledgment runs the same
  callback. The result lists, for each acknowledgment, the calls it made on the peer.
\<close>

fun run_acks :: "int \<Rightarrow> 'a list \<Rightarrow> peer_call list list" where
  "run_acks remaining [] = []"
| "run_acks remaining (a # acks) =
     snd (done_cb remaining) # run_acks (fst (done_cb remaining)) acks"

text \<open>
  The handler of the peer's event "ready": one alive per service type. The server then
  emits "ready" to its own listeners, which is no call on the peer.
\<close>

definition on_ready :: "os_env \<Rightarrow> 's Server \<Rightarrow> peer_call list" where
  "on_ready os srv = map (\<lambda>st. Peer_alive (notify_headers os srv st)) (serviceTypes srv)"

text \<open>
  The object literal of the reply to a search for the type \<open>t\<close>, before the extra
  headers are merged into it.
\<close>

definition reply_base :: "os_env \<Rightarrow> 's Server \<Rightarrow> string \<Rightarrow> jsobj" where
  "reply_base os srv t =
     [(''LOCATION'', JStr (location srv)),
      (''ST'', JStr t),
      (''CONFIGID.UPNP.ORG'', JNum 7337),
      (''BOOTID.UPNP.ORG'', JNum 7337),
      (''SERVER'', JStr (SERVER_STR os)),
      (''USN'', JStr (''uuid:'' @ uuid srv @ ''::'' @ t))]"

text \<open>
  The handler of the peer's event "search": \<open>st\<close> is the header \<^verbatim>\<open>ST\<close> of the
  search (\<open>None\<close> when it has none).
\<close>

definition on_search :: "os_env \<Rightarrow> 's Server \<Rightarrow> string option \<Rightarrow> string \<Rightarrow> peer_call list" where
  "on_search os srv st address =
     (case st of
        None \<Rightarrow> []
      | Some t \<Rightarrow>
          if t \<in> set (serviceTypes srv) then
            [Peer_reply (merge (reply_base os srv t) (extraHeaders srv)) address]
          else [])"

text \<open>Reads the NT and USN headers of a byebye call.\<close>

definition byebye_nt_usn :: "peer_call \<Rightarrow> (jsval \<times> jsval) option" where
  "byebye_nt_usn c =
     (case c of Peer_byebye h \<Rightarrow> Some (js_get h ''NT'', js_get h ''USN'') | _ \<Rightarrow> None)"

section \<open>Server: the application description\<close>

definition dq :: string where
  "dq = [CHR 0x22]"

definition nl :: string where
  "nl = [CHR 0x0A]"

record AppDescData =
  d_name :: string
  d_state :: string
  d_allowStop :: bool
  d_rel :: string
  d_href :: "string option"
  d_additionalData :: "(string \<times> string) list option"
  d_namespaces :: "(string \<times> string) list"

definition APP_DESC_RENDERER :: "AppDescData \<Rightarrow> string" where
  "APP_DESC_RENDERER data =
     (let ns = concat (map (\<lambda>(key, v). '' xmlns:'' @ key @ ''='' @ dq @ v @ dq) (d_namespaces data));
          xml0 =
            ''<?xml version='' @ dq @ ''1.0'' @ dq @ '' encoding='' @ dq @ ''UTF-8'' @ dq @ ''?>'' @ nl
            @ ''<service xmlns='' @ dq @ ''urn:dial-multiscreen-org:schemas:dial'' @ dq @ ns
            @ '' dialVer='' @ dq @ ''1.7'' @ dq @ ''>'' @ nl
            @ ''  <name>'' @ d_name data @ ''</name>'' @ nl
            @ ''  <options allowStop='' @ dq @ (if d_allowStop data then ''true'' else ''false'')
            @ dq @ ''/>'' @ nl
            @ ''  <state>'' @ d_state data @ ''</state>'' @ nl;
          xml1 =
            (case d_href data of
               None \<Rightarrow> xml0
             | Some href \<Rightarrow>
                 if href \<noteq> [] then
                   xml0 @ ''  <link rel='' @ dq @ d_rel data @ dq @ '' href='' @ dq @ href @ dq
                        @ '' />'' @ nl
                 else xml0);
          xml2 =
            (case d_additionalData data of
               None \<Rightarrow> xml1
             | Some ad \<Rightarrow>
                 xml1 @ ''        <additionalData>'' @ nl
                 @ concat (map (\<lambda>(key, v).
                     ''            <'' @ key @ ''>'' @ v @ ''</'' @ key @ ''>'' @ nl) ad)
                 @ ''        </additionalData>'' @ nl)
      in xml2 @ ''</service>'' @ nl)"

section \<open>Server: the HTTP handlers\<close>

text \<open>
  The response to a request. \<open>rsp_body\<close> is \<open>None\<close> where Express writes a
  body of its own: the status's text after \<^verbatim>\<open>sendStatus\<close>, its page for an error
  or for a request that no route matches.
\<close>

record Response =
  rsp_status :: nat
  rsp_headers :: "(string \<times> string) list"
  rsp_body :: "string option"

definition sendStatus :: "(string \<times> string) list \<Rightarrow> nat \<Rightarrow> Response" where
  "sendStatus hdrs code = \<lparr> rsp_status = code, rsp_headers = hdrs, rsp_body = None \<rparr>"

text \<open>The hook invocations a handler makes, in order.\<close>

datatype hook_call =
    Call_getApp string
  | Call_launchApp string "string option"
  | Call_stopApp string string

text \<open>
  What handling one request comes to: the provider's state afterwards, the hooks
  invoked, and the response; \<open>None\<close> when no response is ever sent.
\<close>

record 's handled =
  h_state :: 's
  h_calls :: "hook_call list"
  h_response :: "Response option"

text \<open>
  The body-reading middleware. \<open>is_text\<close> says whether \<^verbatim>\<open>req.is\<close> accepts one of
  the six content types; \<open>chunks\<close> are the data events.
\<close>

definition body_reader :: "bool \<Rightarrow> string list \<Rightarrow> DialRequest \<Rightarrow> DialRequest" where
  "body_reader is_text chunks req =
     (if is_text then
        req\<lparr> req_text := Some (concat chunks), req_length := Some (sum_list (map length chunks)) \<rparr>
      else req)"

definition opt_truthy :: "string option \<Rightarrow> bool" where
  "opt_truthy a = (case a of None \<Rightarrow> False | Some s \<Rightarrow> s \<noteq> [])"

text \<open>\<^verbatim>\<open>${req.protocol}://${req.hostname || req.ip || this.host}:${this.port}${pref}\<close>\<close>

definition baseURL :: "'s Server \<Rightarrow> DialRequest \<Rightarrow> string" where
  "baseURL srv req =
     req_protocol req @ ''://''
     @ str_or (req_hostname req)
         (str_or (req_ip req) (case host srv of None \<Rightarrow> ''null'' | Some h \<Rightarrow> h))
     @ '':'' @ template_number (port srv) @ prefix srv"

text \<open>\<^verbatim>\<open>this.delegate.getApp?.call(req, appName) ?? null\<close>, with the calls it makes.\<close>

definition call_getApp ::
  "'s Server \<Rightarrow> 's \<Rightarrow> DialRequest \<Rightarrow> string \<Rightarrow> AppInfo option \<times> hook_call list" where
  "call_getApp srv s req appName =
     (case getApp (delegate srv) of
        None \<Rightarrow> (None, [])
      | Some f \<Rightarrow> (f s req appName, [Call_getApp appName]))"

text \<open>\<^verbatim>\<open>appInfo.state || (appInfo.pid && "running") || "stopped"\<close>\<close>

definition inferred_state :: "AppInfo \<Rightarrow> string" where
  "inferred_state appInfo =
     str_or (state appInfo) (if opt_truthy (pid appInfo) then ''running'' else ''stopped'')"

text \<open>\<^verbatim>\<open>req.length && req.length > this.maxContentLength\<close>\<close>

definition too_long :: "'s Server \<Rightarrow> DialRequest \<Rightarrow> bool" where
  "too_long srv req =
     (case req_length req of
        None \<Rightarrow> False
      | Some n \<Rightarrow> n \<noteq> 0 \<and> int n > maxContentLength srv)"

text \<open>GET \<^verbatim>\<open>/apps/:appName\<close>\<close>

definition get_app :: "'s Server \<Rightarrow> 's \<Rightarrow> DialRequest \<Rightarrow> string \<Rightarrow> 's handled" where
  "get_app srv s req appName =
     (case call_getApp srv s req appName of
        (Some appInfo, calls) \<Rightarrow>
          \<lparr> h_state = s, h_calls = calls,
            h_response = Some
              \<lparr> rsp_status = 200,
                rsp_headers = [(''Content-Type'', ''application/xml'')],
                rsp_body = Some (APP_DESC_RENDERER
                  \<lparr> d_name = appName,
                    d_state = inferred_state appInfo,
                    d_allowStop = (allowStop appInfo = Some True),
                    d_rel = ''run'',
                    d_href = pid appInfo,
                    d_additionalData = additionalData appInfo,
                    d_namespaces = (case namespaces appInfo of None \<Rightarrow> [] | Some n \<Rightarrow> n) \<rparr>) \<rparr> \<rparr>
      | (None, calls) \<Rightarrow>
          \<lparr> h_state = s, h_calls = calls, h_response = Some (sendStatus [] 404) \<rparr>)"

text \<open>
  \<^verbatim>\<open>rsp.setHeader\<close>: Node refuses a value that holds a control character other than
  the tab, and throws. (It refuses a character above U+00FF as well; the characters of
  a \<open>string\<close> end there.) The result is \<open>None\<close> when it throws.
\<close>

definition invalid_header_chars :: "char list" where
  "invalid_header_chars =
     [CHR 0x00, CHR 0x01, CHR 0x02, CHR 0x03, CHR 0x04, CHR 0x05, CHR 0x06, CHR 0x07,
      CHR 0x08, CHR 0x0A, CHR 0x0B, CHR 0x0C, CHR 0x0D, CHR 0x0E, CHR 0x0F, CHR 0x10,
      CHR 0x11, CHR 0x12, CHR 0x13, CHR 0x14, CHR 0x15, CHR 0x16, CHR 0x17, CHR 0x18,
      CHR 0x19, CHR 0x1A, CHR 0x1B, CHR 0x1C, CHR 0x1D, CHR 0x1E, CHR 0x1F, CHR 0x7F]"

definition valid_header_value :: "string \<Rightarrow> bool" where
  "valid_header_value v \<longleftrightarrow> list_all (\<lambda>c. c \<notin> set invalid_header_chars) v"

definition setHeader ::
  "(string \<times> string) list \<Rightarrow> string \<Rightarrow> string \<Rightarrow> (string \<times> string) list option" where
  "setHeader hdrs field v =
     (if valid_header_value v then Some (AList.update field v hdrs) else None)"

text \<open>
  What Express answers when a handler throws: status 500 and an error page of its
  own. This is the answer when the exception leaves the handler within the request's
  own call, as it does when a hook calls back at once; a hook that calls back later
  leaves the exception uncaught, which is not followed here.
\<close>

definition express_error :: Response where
  "express_error = \<lparr> rsp_status = 500, rsp_headers = [], rsp_body = None \<rparr>"

text \<open>POST \<^verbatim>\<open>/apps/:appName\<close>\<close>

definition post_app :: "'s Server \<Rightarrow> 's \<Rightarrow> DialRequest \<Rightarrow> string \<Rightarrow> 's handled" where
  "post_app srv s req appName =
     (case call_getApp srv s req appName of
        (None, calls) \<Rightarrow>
          \<lparr> h_state = s, h_calls = calls, h_response = Some (sendStatus [] 404) \<rparr>
      | (Some appInfo, calls) \<Rightarrow>
          if too_long srv req then
            \<lparr> h_state = s, h_calls = calls, h_response = Some (sendStatus [] 413) \<rparr>
          else
            (let st = inferred_state appInfo;
                 launchData = (if opt_truthy (req_text req) then req_text req else None)
             in case launchApp (delegate srv) of
                  None \<Rightarrow> \<lparr> h_state = s, h_calls = calls, h_response = None \<rparr>
                | Some f \<Rightarrow>
                    (case f s req appName launchData of
                       (s', None) \<Rightarrow>
                         \<lparr> h_state = s', h_calls = calls @ [Call_launchApp appName launchData],
                           h_response = None \<rparr>
                     | (s', Some (p, err)) \<Rightarrow>
                         \<lparr> h_state = s', h_calls = calls @ [Call_launchApp appName launchData],
                           h_response = Some
                             (case err of
                                Some e \<Rightarrow> sendStatus [] 503
                              | None \<Rightarrow>
                                  (case p of
                                     None \<Rightarrow> sendStatus [] (if st = ''stopped'' then 201 else 200)
                                   | Some launched \<Rightarrow>
                                       if launched \<noteq> [] then
                                         (case setHeader [] ''LOCATION''
                                                 (baseURL srv req @ ''/apps/'' @ appName @ ''/''
                                                    @ launched) of
                                            None \<Rightarrow> express_error
                                          | Some hdrs \<Rightarrow>
                                              sendStatus hdrs
                                                (if st = ''stopped'' then 201 else 200))
                                       else
                                         sendStatus [] (if st = ''stopped'' then 201 else 200))) \<rparr>)))"

text \<open>POST \<^verbatim>\<open>/apps/:appName/dial_data\<close>\<close>

definition post_dial_data :: "'s Server \<Rightarrow> 's \<Rightarrow> DialRequest \<Rightarrow> string \<Rightarrow> 's handled" where
  "post_dial_data srv s req appName =
     (case call_getApp srv s req appName of
        (None, calls) \<Rightarrow>
          \<lparr> h_state = s, h_calls = calls, h_response = Some (sendStatus [] 404) \<rparr>
      | (Some appInfo, calls) \<Rightarrow>
          \<lparr> h_state = s, h_calls = calls,
            h_response = Some (sendStatus [] (if too_long srv req then 413 else 501)) \<rparr>)"




section \<open>The demonstration server\<close>

text \<open>
  The delegate of the demonstration server at the end of the source. Its state is the
  one application it knows, "YouTube". \<^verbatim>\<open>launchApp\<close> reads \<^verbatim>\<open>app.pid\<close> of an
  undefined \<^verbatim>\<open>app\<close> for another name, which throws before the callback is called.
\<close>

definition demo_getApp :: "AppInfo \<Rightarrow> DialRequest \<Rightarrow> string \<Rightarrow> AppInfo option" where
  "demo_getApp apps req appName = (if appName = ''YouTube'' then Some apps else None)"

definition demo_launchApp ::
  "AppInfo \<Rightarrow> DialRequest \<Rightarrow> string \<Rightarrow> string option
     \<Rightarrow> AppInfo \<times> (string option \<times> js_error option) option" where
  "demo_launchApp apps req appName launchData =
     (if appName = ''YouTube'' then
        (apps\<lparr> pid := Some ''run'', state := Some ''running'' \<rparr>, Some (Some ''run'', None))
      else (apps, None))"

definition demo_stopApp ::
  "AppInfo \<Rightarrow> DialRequest \<Rightarrow> string \<Rightarrow> string \<Rightarrow> AppInfo \<times> bool option" where
  "demo_stopApp apps req appName p =
     (if appName = ''YouTube'' \<and> pid apps = Some p then
        (apps\<lparr> pid := None, state := Some ''stopped'' \<rparr>, Some True)
      else (apps, Some False))"

definition demo_apps :: AppInfo where
  "demo_apps =
     \<lparr> name = ''YouTube'', state = Some ''stopped'', pid = None, allowStop = Some True,
       additionalData = None, namespaces = None \<rparr>"

definition demo_os :: os_env where
  "demo_os =
     \<lparr> os_type = ''Linux'', os_release = ''6.1.0'', os_hostname = ''tv'', randomUUID = ''r-1'' \<rparr>"

definition demo_options :: "AppInfo ServerOptions" where
  "demo_options =
     \<lparr> opt_prefix = Some ''/dial'', opt_port = Some 3000, opt_host = None, opt_uuid = None,
       opt_friendlyName = None, opt_manufacturer = Some ''Fraunhofer FOKUS'',
       opt_modelName = Some ''DIAL Demo Server'', opt_maxContentLength = None,
       opt_extraHeaders = None,
       opt_delegate = Some
         \<lparr> getApp = Some demo_getApp, launchApp = Some demo_launchApp,
           stopApp = Some demo_stopApp \<rparr> \<rparr>"

definition dialServer :: "AppInfo Server" where
  "dialServer = new_Server demo_os demo_options"

definition demo_request :: DialRequest where
  "demo_request =
     \<lparr> req_protocol = ''http'', req_hostname = Some ''tv.local'', req_ip = Some ''10.0.0.2'',
       req_text = None, req_length = None \<rparr>"

section \<open>The state rule in the specification's words\<close>

text \<open>
  The specification's rule for the state of an application, read from its words and
  not from the code: the explicit state when the application info has one, else
  "running" when a pid is present, else "stopped". It is compared below with
  \<open>inferred_state\<close>, the expression of the source.
\<close>

definition spec_inferred_state :: "AppInfo \<Rightarrow> string" where
  "spec_inferred_state appInfo =
     (case state appInfo of
        Some st \<Rightarrow> st
      | None \<Rightarrow> (case pid appInfo of Some p \<Rightarrow> ''running'' | None \<Rightarrow> ''stopped''))"

section \<open>Client\<close>

text \<open>
  The headers of a message the peer received, by name; the code reads them as strings.
  \<open>services\<close> is the client's record of them, keyed by location: the
  properties that the plain object \<^verbatim>\<open>this.services\<close> owns.
\<close>

type_synonym SsdpHeaders = "(string \<times> string) list"

type_synonym services = "string \<rightharpoonup> SsdpHeaders"

definition client_serviceTypes :: "string list" where
  "client_serviceTypes =
     [''urn:dial-multiscreen-org:service:dial:1'',
      ''urn:dial-multiscreen-org:device:dial:1'']"

text \<open>
  What reaches the client: the events of its SSDP peer, and the methods called on it
  that touch the peer or the record.
\<close>

datatype client_input =
    Ev_ready
  | Ev_found SsdpHeaders
  | Ev_notify SsdpHeaders
  | Ev_close
  | Op_start
  | Op_refresh
  | Op_stop

text \<open>
  What \<^verbatim>\<open>this.services[location]\<close> reads: the headers recorded under the location,
  or, for a location the record does not own, the member of \<^verbatim>\<open>Object.prototype\<close> of
  that name. Either is an object, and truthy.
\<close>

datatype recorded = Stored SsdpHeaders | Inherited

definition services_read :: "services \<Rightarrow> string \<Rightarrow> recorded option" where
  "services_read sv loc =
     (case sv loc of
        Some headers \<Rightarrow> Some (Stored headers)
      | None \<Rightarrow> if loc \<in> set Object_prototype_members then Some Inherited else None)"

text \<open>What the client does in return: the events it emits and its calls on the peer.\<close>

datatype client_effect =
    Emit_ready
  | Emit_found string SsdpHeaders
  | Emit_disappear string recorded
  | Emit_stop
  | Do_search string
  | Do_start
  | Do_close

text \<open>The handler of the peer's event "found".\<close>

definition on_found :: "services \<Rightarrow> SsdpHeaders \<Rightarrow> services \<times> client_effect list" where
  "on_found sv headers =
     (case map_of headers ''LOCATION'' of
        None \<Rightarrow> (sv, [])
      | Some loc \<Rightarrow>
          if loc \<noteq> [] \<and> services_read sv loc = None
          then (sv(loc \<mapsto> headers), [Emit_found loc headers])
          else (sv, []))"

text \<open>
  The handler of the peer's event "notify". \<^verbatim>\<open>delete this.services[location]\<close>
  removes a property the record owns and does nothing for an inherited member.
\<close>

definition on_notify :: "services \<Rightarrow> SsdpHeaders \<Rightarrow> services \<times> client_effect list" where
  "on_notify sv headers =
     (let loc = map_of headers ''LOCATION'';
          nts = map_of headers ''NTS'';
          nt = map_of headers ''NT''
      in case nt of
           None \<Rightarrow> (sv, [])
         | Some t \<Rightarrow>
             if t \<noteq> [] \<and> t \<in> set client_serviceTypes then
               (case loc of
                  None \<Rightarrow> (sv, [])
                | Some l \<Rightarrow>
                    if l \<noteq> [] \<and> nts = Some ''ssdp:alive'' \<and> services_read sv l = None then
                      (sv(l \<mapsto> headers), [Emit_found l headers])
                    else if l \<noteq> [] \<and> nts = Some ''ssdp:byebye'' then
                      (case services_read sv l of
                         None \<Rightarrow> (sv, [])
                       | Some service \<Rightarrow> (sv(l := None), [Emit_disappear l service]))
                    else (sv, []))
             else (sv, []))"

definition refresh :: "services \<Rightarrow> services \<times> client_effect list" where
  "refresh sv =
     (Map.empty,
      [Do_search ''urn:dial-multiscreen-org:device:dial:1'',
       Do_search ''urn:dial-multiscreen-org:service:dial:1''])"

fun client_step :: "services \<Rightarrow> client_input \<Rightarrow> services \<times> client_effect list" where
  "client_step sv Ev_ready =
     (sv, [Do_search ''urn:dial-multiscreen-org:device:dial:1'',
           Do_search ''urn:dial-multiscreen-org:service:dial:1'',
           Emit_ready])"
| "client_step sv (Ev_found headers) = on_found sv headers"
| "client_step sv (Ev_notify headers) = on_notify sv headers"
| "client_step sv Ev_close = (sv, [Emit_stop])"
| "client_step sv Op_start = (sv, [Do_start])"
| "client_step sv Op_refresh = refresh sv"
| "client_step sv Op_stop = (sv, [Do_close])"

text \<open>
  A run of the client over a sequence of inputs, as the list of what an observer sees:
  each input, followed by what the client did in return.
\<close>

datatype obs = In client_input | Out client_effect

fun observe :: "services \<Rightarrow> client_input list \<Rightarrow> obs list" where
  "observe sv [] = []"
| "observe sv (i # inputs) =
     In i # map Out (snd (client_step sv i)) @ observe (fst (client_step sv i)) inputs"

fun client_run :: "services \<Rightarrow> client_input list \<Rightarrow> services" where
  "client_run sv [] = sv"
| "client_run sv (i # inputs) = client_run (fst (client_step sv i)) inputs"

subsection \<open>Properties of a run\<close>

text \<open>
  "found" is emitted at most once per location until a "disappear" for that location:
  between two "found" for one location lies a "disappear" for it.
\<close>

definition found_once_until_disappear :: "obs list \<Rightarrow> bool" where
  "found_once_until_disappear tr \<longleftrightarrow>
     (\<forall>a b c l h h'.
        tr = a @ Out (Emit_found l h) # b @ Out (Emit_found l h') # c \<longrightarrow>
        (\<exists>r. Out (Emit_disappear l r) \<in> set b))"

text \<open>The same, where a call of \<^verbatim>\<open>refresh\<close> in between serves as well.\<close>

definition found_once_until_disappear_or_refresh :: "obs list \<Rightarrow> bool" where
  "found_once_until_disappear_or_refresh tr \<longleftrightarrow>
     (\<forall>a b c l h h'.
        tr = a @ Out (Emit_found l h) # b @ Out (Emit_found l h') # c \<longrightarrow>
        In Op_refresh \<in> set b \<or> (\<exists>r. Out (Emit_disappear l r) \<in> set b))"

text \<open>
  The locations an observer knows to be announced, with the headers of their "found":
  \<open>announced m tr\<close> holds when, starting from the announced locations \<open>m\<close>, every
  "found" of \<open>tr\<close> is for a location not announced at that point, every "disappear"
  that carries headers is for an announced location and carries the headers of its
  "found", a "disappear" that carries an inherited member is for a location named
  like a member of \<^verbatim>\<open>Object.prototype\<close>, and a call of \<^verbatim>\<open>refresh\<close> forgets every
  announced location.
\<close>

fun announced :: "services \<Rightarrow> obs list \<Rightarrow> bool" where
  "announced m [] = True"
| "announced m (Out (Emit_found l h) # tr) = (m l = None \<and> announced (m(l \<mapsto> h)) tr)"
| "announced m (Out (Emit_disappear l (Stored h)) # tr) =
     (m l = Some h \<and> announced (m(l := None)) tr)"
| "announced m (Out (Emit_disappear l Inherited) # tr) =
     (l \<in> set Object_prototype_members \<and> announced m tr)"
| "announced m (In Op_refresh # tr) = announced Map.empty tr"
| "announced m (x # tr) = announced m tr"

text \<open>
  Three messages of a DIAL device, the reply of a device that is no DIAL device, and a
  byebye whose LOCATION is the name of a member of \<^verbatim>\<open>Object.prototype\<close>.
\<close>

definition constructor_byebye :: SsdpHeaders where
  "constructor_byebye =
     [(''NT'', ''urn:dial-multiscreen-org:service:dial:1''),
      (''NTS'', ''ssdp:byebye''),
      (''LOCATION'', ''constructor'')]"

definition tv_location :: string where
  "tv_location = ''http://10.0.0.2:3000/dial/ssdp/device-desc.xml''"

definition tv_reply :: SsdpHeaders where
  "tv_reply =
     [(''ST'', ''urn:dial-multiscreen-org:service:dial:1''),
      (''USN'', ''uuid:r-1::urn:dial-multiscreen-org:service:dial:1''),
      (''LOCATION'', tv_location)]"

definition tv_alive :: SsdpHeaders where
  "tv_alive =
     [(''NT'', ''urn:dial-multiscreen-org:service:dial:1''),
      (''NTS'', ''ssdp:alive''),
      (''LOCATION'', tv_location)]"

definition tv_byebye :: SsdpHeaders where
  "tv_byebye =
     [(''NT'', ''urn:dial-multiscreen-org:service:dial:1''),
      (''NTS'', ''ssdp:byebye''),
      (''LOCATION'', tv_location)]"

definition router_location :: string where
  "router_location = ''http://10.0.0.1:80/desc.xml''"

definition router_reply :: SsdpHeaders where
  "router_reply =
     [(''ST'', ''upnp:rootdevice''),
      (''USN'', ''uuid:77::upnp:rootdevice''),
      (''LOCATION'', router_location)]"

section \<open>DialDevice\<close>

text \<open>
  A JavaScript string is a sequence of UTF-16 code units. The names and URLs above are
  plain \<open>string\<close>s; the payload of a launch and the body of a response may hold any
  text, so they are lists of code units.
\<close>

type_synonym ustring = "nat list"

record IconInfo =
  mimetype :: "string option"
  width :: "string option"
  height :: "string option"
  depth :: "string option"
  url :: "string option"

record DialDevice =
  descriptionUrl :: "string option"
  applicationUrl :: "string option"
  deviceType :: "string option"
  dev_friendlyName :: "string option"
  dev_manufacturer :: "string option"
  dev_modelName :: "string option"
  UDN :: "string option"
  icons :: "IconInfo list"

text \<open>A parsed URL: the fields of the \<^verbatim>\<open>URL\<close> object that the code reads.\<close>

record URL =
  u_href :: string
  u_hostname :: string
  u_port :: string
  u_pathname :: string
  u_search :: string

record RequestOptions =
  ro_host :: string
  ro_port :: string
  ro_path :: string
  ro_method :: string
  ro_headers :: jsobj

text \<open>
  A request handed to \<^verbatim>\<open>http\<close>: \<^verbatim>\<open>http.get(url)\<close>, or \<^verbatim>\<open>http.request(options)\<close>
  with the body written to it, if any.
\<close>

datatype http_call = Http_get string | Http_request RequestOptions "ustring option"

text \<open>
  What comes back: a response with its status and the chunks of its body, or the
  event "error".
\<close>

datatype http_outcome = Http_response nat "ustring list" | Http_error js_error

text \<open>
  What the module uses of Node and of the network, as parameters: \<^verbatim>\<open>new URL\<close>
  (\<open>None\<close> when it throws), \<^verbatim>\<open>Buffer.byteLength\<close>, and the outcome of a request.
\<close>

record node_env =
  new_URL :: "string \<Rightarrow> URL option"
  Buffer_byteLength :: "ustring \<Rightarrow> nat"
  http_send :: "http_call \<Rightarrow> http_outcome"

text \<open>
  A call of a method of \<^verbatim>\<open>DialDevice\<close>: it throws, or it returns after issuing the
  listed requests, and the callback is invoked with the listed arguments, once per entry.
\<close>

datatype 'a ran = Threw string | Ran "http_call list" "('a option \<times> js_error option) list"

text \<open>\<^verbatim>\<open>this.applicationUrl && appName ? `${this.applicationUrl}/${appName}` : null\<close>\<close>

definition app_url :: "DialDevice \<Rightarrow> string \<Rightarrow> string option" where
  "app_url dev appName =
     (case applicationUrl dev of
        None \<Rightarrow> None
      | Some base \<Rightarrow>
          if base \<noteq> [] \<and> appName \<noteq> [] then Some (base @ ''/'' @ appName) else None)"

text \<open>
  \<^verbatim>\<open>this.applicationUrl && appName && pid ? `${this.applicationUrl}/${appName}/${pid}` : null\<close>
\<close>

definition stop_url :: "DialDevice \<Rightarrow> string \<Rightarrow> string \<Rightarrow> string option" where
  "stop_url dev appName p =
     (case applicationUrl dev of
        None \<Rightarrow> None
      | Some base \<Rightarrow>
          if base \<noteq> [] \<and> appName \<noteq> [] \<and> p \<noteq> [] then Some (base @ ''/'' @ appName @ ''/'' @ p)
          else None)"

definition status_error :: "string \<Rightarrow> nat \<Rightarrow> js_error" where
  "status_error url_text status =
     Error (''Cannot get app info from '' @ url_text) (Some (decimal status))"

text \<open>
  \<^verbatim>\<open>http.get\<close> is given the URL as text and parses it itself; it throws for text
  that is no URL, as \<^verbatim>\<open>new URL\<close> does.
\<close>

definition DialDevice_getAppInfoXml :: "node_env \<Rightarrow> DialDevice \<Rightarrow> string \<Rightarrow> ustring ran" where
  "DialDevice_getAppInfoXml env dev appName =
     (case app_url dev appName of
        None \<Rightarrow>
          Ran [] [(None, Some (Error
            ''DIAL appName and DIAL Application-URL cannot be empty for getAppInfo'' None))]
      | Some appUrl \<Rightarrow>
          (case new_URL env appUrl of
             None \<Rightarrow> Threw ''TypeError: Invalid URL''
           | Some u \<Rightarrow>
               Ran [Http_get appUrl]
                 [case http_send env (Http_get appUrl) of
                    Http_response status chunks \<Rightarrow>
                      if status = 200 then (Some (concat chunks), None)
                      else (None, Some (status_error appUrl status))
                  | Http_error err \<Rightarrow> (None, Some err)]))"

definition DialDevice_launchApp :: "node_env \<Rightarrow> DialDevice \<Rightarrow> string \<Rightarrow> ustring option \<Rightarrow> string option
    \<Rightarrow> ustring ran" where
  "DialDevice_launchApp env dev appName launchData contentType =
     (case app_url dev appName of
        None \<Rightarrow>
          Ran [] [(None, Some (Error
            ''DIAL appName and DIAL Application-URL cannot be empty for launchApp'' None))]
      | Some appUrlStr \<Rightarrow>
          (case new_URL env appUrlStr of
             None \<Rightarrow> Threw ''TypeError: Invalid URL''
           | Some appUrl \<Rightarrow>
               (let contentLength =
                      (case launchData of
                         None \<Rightarrow> 0
                       | Some d \<Rightarrow> if d \<noteq> [] then Buffer_byteLength env d else 0);
                    options =
                      \<lparr> ro_host = u_hostname appUrl,
                        ro_port = u_port appUrl,
                        ro_path = u_pathname appUrl @ u_search appUrl,
                        ro_method = ''POST'',
                        ro_headers =
                          [(''CONTENT-TYPE'',
                            JStr (str_or contentType (''text/plain; charset='' @ dq @ ''utf-8'' @ dq))),
                           (''CONTENT-LENGTH'', JNum (int contentLength))] \<rparr>;
                    req =
                      Http_request options
                        (case launchData of
                           None \<Rightarrow> None
                         | Some d \<Rightarrow> if d \<noteq> [] then Some d else None)
                in Ran [req]
                     [case http_send env req of
                        Http_response status chunks \<Rightarrow>
                          if 400 \<le> status then (None, Some (status_error (u_href appUrl) status))
                          else (Some (concat chunks), None)
                      | Http_error err \<Rightarrow> (None, Some err)])))"

definition DialDevice_stopApp :: "node_env \<Rightarrow> DialDevice \<Rightarrow> string \<Rightarrow> string \<Rightarrow> nat ran" where
  "DialDevice_stopApp env dev appName p =
     (case stop_url dev appName p of
        None \<Rightarrow>
          Ran [] [(None, Some (Error
            ''DIAL appName, pid and DIAL Application-URL cannot be empty for stopApp'' None))]
      | Some stopUrlStr \<Rightarrow>
          (case new_URL env stopUrlStr of
             None \<Rightarrow> Threw ''TypeError: Invalid URL''
           | Some stopUrl \<Rightarrow>
               (let req =
                      Http_request
                        \<lparr> ro_host = u_hostname stopUrl,
                          ro_port = u_port stopUrl,
                          ro_path = u_pathname stopUrl @ u_search stopUrl,
                          ro_method = ''DELETE'',
                          ro_headers = [] \<rparr>
                        None
                in Ran [req]
                     [case http_send env req of
                        Http_response status chunks \<Rightarrow> (Some status, None)
                      | Http_error err \<Rightarrow> (None, Some err)])))"

subsection \<open>A model of Buffer.byteLength and a device on the network\<close>

text \<open>
  \<^verbatim>\<open>Buffer.byteLength\<close> of a string in its default encoding, as Node documents it:
  the number of bytes of the string encoded in UTF-8. A surrogate pair is one code
  point; a lone surrogate is encoded as U+FFFD.
\<close>

definition code_point_bytes :: "nat \<Rightarrow> nat list" where
  "code_point_bytes cp =
     (if cp < 0x80 then [cp]
      else if cp < 0x800 then [0xC0 + cp div 64, 0x80 + cp mod 64]
      else if cp < 0x10000 then
        [0xE0 + cp div 4096, 0x80 + (cp div 64) mod 64, 0x80 + cp mod 64]
      else
        [0xF0 + cp div 262144, 0x80 + (cp div 4096) mod 64, 0x80 + (cp div 64) mod 64,
         0x80 + cp mod 64])"

definition lone_unit :: "nat \<Rightarrow> nat" where
  "lone_unit u = (if 0xD800 \<le> u \<and> u \<le> 0xDFFF then 0xFFFD else u)"

fun utf8_encode :: "ustring \<Rightarrow> nat list" where
  "utf8_encode [] = []"
| "utf8_encode [u] = code_point_bytes (lone_unit u)"
| "utf8_encode (u # v # rest) =
     (if 0xD800 \<le> u \<and> u \<le> 0xDBFF \<and> 0xDC00 \<le> v \<and> v \<le> 0xDFFF
      then code_point_bytes (0x10000 + (u - 0xD800) * 1024 + (v - 0xDC00)) @ utf8_encode rest
      else code_point_bytes (lone_unit u) @ utf8_encode (v # rest))"

definition utf8_byteLength :: "ustring \<Rightarrow> nat" where
  "utf8_byteLength s = length (utf8_encode s)"

definition tv_URL :: "string \<Rightarrow> URL option" where
  "tv_URL s =
     (if s = ''http://10.0.0.2:3000/dial/apps/YouTube'' then
        Some \<lparr> u_href = ''http://10.0.0.2:3000/dial/apps/YouTube'', u_hostname = ''10.0.0.2'',
               u_port = ''3000'', u_pathname = ''/dial/apps/YouTube'', u_search = [] \<rparr>
      else None)"

text \<open>A network on which every request to the device is answered 201 with the body "ok".\<close>

definition tv_env :: node_env where
  "tv_env =
     \<lparr> new_URL = tv_URL,
       Buffer_byteLength = utf8_byteLength,
       http_send = (\<lambda>c. Http_response 201 [[0x6F], [0x6B]]) \<rparr>"

text \<open>The same, with every request answered 404 and an empty body.\<close>

definition tv_env_404 :: node_env where
  "tv_env_404 =
     \<lparr> new_URL = tv_URL,
       Buffer_byteLength = utf8_byteLength,
       http_send = (\<lambda>c. Http_response 404 []) \<rparr>"

definition tv_device :: DialDevice where
  "tv_device =
     \<lparr> descriptionUrl = Some ''http://10.0.0.2:3000/dial/ssdp/device-desc.xml'',
       applicationUrl = Some ''http://10.0.0.2:3000/dial/apps'',
       deviceType = Some ''urn:dial-multiscreen-org:device:dial:1'',
       dev_friendlyName = Some ''tv'',
       dev_manufacturer = Some ''Fraunhofer FOKUS'',
       dev_modelName = Some ''DIAL Demo Server'',
       UDN = Some ''uuid:r-1'',
       icons = [] \<rparr>"
section \<open>Properties of merge\<close>

lemma js_or_idem: "js_or (js_or a b) b = js_or a b"
  by (simp add: js_or_def)

lemma proto_inherited: "''__proto__'' \<in> set Object_prototype_members"
  by (simp add: Object_prototype_members_def)

lemma js_write_setter:
  "map_of obj ''__proto__'' = None \<Longrightarrow> js_write obj ''__proto__'' v = obj"
  by (simp add: js_write_def)

lemma js_write_update:
  "key \<noteq> ''__proto__'' \<or> map_of obj key \<noteq> None \<Longrightarrow>
   js_write obj key v = AList.update key v obj"
  by (auto simp: js_write_def)

lemma js_read_update:
  "js_read (AList.update key v obj) k = (if k = key then v else js_read obj k)"
  by (simp add: js_read_def update_conv')

lemma js_read_js_write:
  "js_read (js_write obj key (js_or (js_read obj key) w)) k =
     (if k = key then js_or (js_read obj key) w else js_read obj k)"
proof (cases "key \<noteq> ''__proto__'' \<or> map_of obj key \<noteq> None")
  case True
  then show ?thesis by (simp only: js_write_update js_read_update)
next
  case False
  then have k: "key = ''__proto__''" and n: "map_of obj ''__proto__'' = None"
    by auto
  from n have "js_read obj ''__proto__'' = JObject"
    by (simp add: js_read_def proto_inherited)
  then have "js_or (js_read obj ''__proto__'') w = js_read obj ''__proto__''"
    by (simp add: js_or_def)
  with k n show ?thesis
    by (simp add: js_write_setter)
qed

lemma map_of_js_write:
  "map_of (js_write obj key v) k =
     (if k = key \<and> (key \<noteq> ''__proto__'' \<or> map_of obj key \<noteq> None) then Some v
      else map_of obj k)"
proof (cases "key \<noteq> ''__proto__'' \<or> map_of obj key \<noteq> None")
  case True
  then show ?thesis by (simp only: js_write_update update_conv') simp
next
  case False
  then have k: "key = ''__proto__''" and n: "map_of obj ''__proto__'' = None"
    by auto
  then show ?thesis by (simp add: js_write_setter)
qed

lemma js_read_merge_loop:
  "js_read (merge_loop keys obj1 obj2) k =
     (if k \<in> set keys then js_or (js_read obj1 k) (js_read obj2 k) else js_read obj1 k)"
proof (induction keys arbitrary: obj1)
  case Nil
  show ?case by simp
next
  case (Cons key keys)
  show ?case
    by (simp add: Cons.IH js_read_js_write js_or_idem)
qed

lemma map_of_merge_loop:
  "map_of (merge_loop keys obj1 obj2) k =
     (if k \<in> set keys \<and> (k \<noteq> ''__proto__'' \<or> map_of obj1 k \<noteq> None)
      then Some (js_or (js_read obj1 k) (js_read obj2 k))
      else map_of obj1 k)"
proof (induction keys arbitrary: obj1)
  case Nil
  show ?case by simp
next
  case (Cons key keys)
  let ?v = "js_or (js_read obj1 key) (js_read obj2 key)"
  let ?o = "js_write obj1 key ?v"
  have step: "map_of (merge_loop (key # keys) obj1 obj2) k =
      (if k \<in> set keys \<and> (k \<noteq> ''__proto__'' \<or> map_of ?o k \<noteq> None)
       then Some (js_or (js_read ?o k) (js_read obj2 k))
       else map_of ?o k)"
    by (simp add: Cons.IH)
  show ?case
  proof (cases "k = key")
    case False
    then have "map_of ?o k = map_of obj1 k" "js_read ?o k = js_read obj1 k"
      by (simp_all add: map_of_js_write js_read_js_write)
    with False step show ?thesis by simp
  next
    case True
    show ?thesis
    proof (cases "key \<noteq> ''__proto__'' \<or> map_of obj1 key \<noteq> None")
      case own: True
      then have "map_of ?o key = Some ?v" by (simp add: map_of_js_write)
      moreover have "js_read ?o key = ?v" by (simp add: js_read_js_write)
      ultimately show ?thesis using True own step by (simp add: js_or_idem)
    next
      case setter: False
      then have "map_of ?o key = map_of obj1 key" by (simp add: map_of_js_write)
      with True setter step show ?thesis by auto
    qed
  qed
qed

lemma key_in_js_keys: "k \<in> set (js_keys obj) \<longleftrightarrow> map_of obj k \<noteq> None"
  by (simp add: js_keys_def map_of_eq_None_iff)

lemma map_of_merge:
  "map_of (merge obj1 obj2) k =
     (case map_of obj2 k of
        None \<Rightarrow> map_of obj1 k
      | Some v2 \<Rightarrow>
          if k \<noteq> ''__proto__'' \<or> map_of obj1 k \<noteq> None
          then Some (js_or (js_read obj1 k) v2)
          else None)"
proof (cases "map_of obj2 k")
  case None
  then show ?thesis by (simp add: merge_def map_of_merge_loop key_in_js_keys)
next
  case (Some v2)
  then have "js_read obj2 k = v2" by (simp add: js_read_def)
  with Some show ?thesis
    by (cases "k \<noteq> ''__proto__'' \<or> map_of obj1 k \<noteq> None")
       (auto simp: merge_def map_of_merge_loop key_in_js_keys)
qed

lemma js_get_merge_own_truthy:
  "map_of obj1 k = Some v \<Longrightarrow> truthy v \<Longrightarrow> js_get (merge obj1 obj2) k = v"
  by (simp add: js_get_def map_of_merge js_read_def js_or_def split: option.splits)

lemma merge_truthy_base:
  assumes "\<forall>k v. map_of base k = Some v \<longrightarrow> truthy v"
  shows "(\<forall>k v. map_of base k = Some v \<longrightarrow> map_of (merge base extra) k = Some v) \<and>
         (\<forall>k. map_of (merge base extra) k \<noteq> map_of base k \<longrightarrow>
               map_of base k = None \<and> map_of extra k \<noteq> None)"
proof (intro conjI allI impI)
  fix k v
  assume "map_of base k = Some v"
  with assms show "map_of (merge base extra) k = Some v"
    by (auto simp: map_of_merge js_read_def js_or_def split: option.splits)
next
  fix k
  assume d: "map_of (merge base extra) k \<noteq> map_of base k"
  with assms show "map_of base k = None"
    by (cases "map_of base k") (auto simp: map_of_merge js_read_def js_or_def split: option.splits)
  from d show "map_of extra k \<noteq> None"
    by (cases "map_of extra k") (auto simp: map_of_merge)
qed

lemma merge_absent_key:
  "\<forall>k v2. map_of base k = None \<and> map_of extra k = Some v2 \<longrightarrow>
      map_of (merge base extra) k =
        (if k \<notin> set Object_prototype_members then Some v2
         else if k = ''__proto__'' then None
         else Some JObject)"
proof (intro allI impI)
  fix k v2
  assume a: "map_of base k = None \<and> map_of extra k = Some v2"
  show "map_of (merge base extra) k =
        (if k \<notin> set Object_prototype_members then Some v2
         else if k = ''__proto__'' then None
         else Some JObject)"
  proof (cases "k \<in> set Object_prototype_members")
    case False
    then have "k \<noteq> ''__proto__''" using proto_inherited by auto
    with a False show ?thesis
      by (simp add: map_of_merge js_read_def js_or_def)
  next
    case True
    with a show ?thesis
      by (simp add: map_of_merge js_read_def js_or_def)
  qed
qed

lemma serviceTypes_nonempty: "st \<in> set (serviceTypes srv) \<Longrightarrow> st \<noteq> []"
  by (auto simp: serviceTypes_def)

lemma call_site_bases_truthy:
  assumes "st \<in> set (serviceTypes srv)"
  shows "\<forall>k v. map_of (notify_base os srv st) k = Some v \<longrightarrow> truthy v"
    and "\<forall>k v. map_of (reply_base os srv st) k = Some v \<longrightarrow> truthy v"
  using serviceTypes_nonempty [OF assms]
  by (auto simp: notify_base_def reply_base_def SERVER_STR_def location_def split: if_splits)


text \<open>
  Claim C6: merging the caller-supplied extra headers into the base headers, as done for
  the alive, byebye and search-reply messages, keeps every key of the base map with its
  existing value, and adds an entry only for a key that the base map lacks and the extra
  map has.

  The base map of every call is an object literal whose values are all truthy (first
  part, for every service type of the server); for every such base map, and every extra
  map, the merged map has every base key with its base value, and differs from the base
  map only at keys that the base map lacks and the extra map has (second part). The
  entry added at such a key holds the extra map's value, unless the key names a member
  of \<^verbatim>\<open>Object.prototype\<close>: then it holds the inherited member, and nothing is added
  at \<^verbatim>\<open>__proto__\<close>.
\<close>

theorem merge_existing_value_wins:
  "(st \<in> set (serviceTypes srv) \<longrightarrow>
      (\<forall>k v. map_of (notify_base os srv st) k = Some v \<longrightarrow> truthy v) \<and>
      (\<forall>k v. map_of (reply_base os srv st) k = Some v \<longrightarrow> truthy v)) \<and>
   ((\<forall>k v. map_of base k = Some v \<longrightarrow> truthy v) \<longrightarrow>
      (\<forall>k v. map_of base k = Some v \<longrightarrow> map_of (merge base extra) k = Some v) \<and>
      (\<forall>k. map_of (merge base extra) k \<noteq> map_of base k \<longrightarrow>
            map_of base k = None \<and> map_of extra k \<noteq> None) \<and>
      (\<forall>k v2. map_of base k = None \<and> map_of extra k = Some v2 \<longrightarrow>
            map_of (merge base extra) k =
              (if k \<notin> set Object_prototype_members then Some v2
               else if k = ''__proto__'' then None
               else Some JObject)))"
proof (intro conjI impI)
  assume "st \<in> set (serviceTypes srv)"
  then show "\<forall>k v. map_of (notify_base os srv st) k = Some v \<longrightarrow> truthy v"
    by (rule call_site_bases_truthy)
next
  assume "st \<in> set (serviceTypes srv)"
  then show "\<forall>k v. map_of (reply_base os srv st) k = Some v \<longrightarrow> truthy v"
    by (rule call_site_bases_truthy)
next
  assume "\<forall>k v. map_of base k = Some v \<longrightarrow> truthy v"
  then show "\<forall>k v. map_of base k = Some v \<longrightarrow> map_of (merge base extra) k = Some v"
    by (rule merge_truthy_base [THEN conjunct1])
next
  assume "\<forall>k v. map_of base k = Some v \<longrightarrow> truthy v"
  then show "\<forall>k. map_of (merge base extra) k \<noteq> map_of base k \<longrightarrow>
                 map_of base k = None \<and> map_of extra k \<noteq> None"
    by (rule merge_truthy_base [THEN conjunct2])
next
  show "\<forall>k v2. map_of base k = None \<and> map_of extra k = Some v2 \<longrightarrow>
            map_of (merge base extra) k =
              (if k \<notin> set Object_prototype_members then Some v2
               else if k = ''__proto__'' then None
               else Some JObject)"
    by (rule merge_absent_key)
qed

theorem merge_existing_value_wins_witness:
  "map_of (merge (reply_base demo_os dialServer ''ssdp:all'')
                 [(''ST'', JStr ''other''), (''BOOTID.UPNP.ORG'', JNum 7), (''X-A'', JBool True),
                  (''toString'', JStr ''x'')]) ''ST''
     = Some (JStr ''ssdp:all'') \<and>
   map_of (merge (reply_base demo_os dialServer ''ssdp:all'')
                 [(''ST'', JStr ''other''), (''BOOTID.UPNP.ORG'', JNum 7), (''X-A'', JBool True),
                  (''toString'', JStr ''x'')]) ''BOOTID.UPNP.ORG''
     = Some (JNum 7337) \<and>
   map_of (merge (reply_base demo_os dialServer ''ssdp:all'')
                 [(''ST'', JStr ''other''), (''BOOTID.UPNP.ORG'', JNum 7), (''X-A'', JBool True),
                  (''toString'', JStr ''x'')]) ''X-A''
     = Some (JBool True) \<and>
   map_of (merge (reply_base demo_os dialServer ''ssdp:all'')
                 [(''ST'', JStr ''other''), (''BOOTID.UPNP.ORG'', JNum 7), (''X-A'', JBool True),
                  (''toString'', JStr ''x'')]) ''toString''
     = Some JObject"
proof -
  let ?b = "reply_base demo_os dialServer ''ssdp:all''"
  let ?e = "[(''ST'', JStr ''other''), (''BOOTID.UPNP.ORG'', JNum 7), (''X-A'', JBool True),
             (''toString'', JStr ''x'')]"
  note inst = merge_existing_value_wins
    [where st = "''ssdp:all''" and srv = dialServer and os = demo_os and base = ?b and extra = ?e]
  have "''ssdp:all'' \<in> set (serviceTypes dialServer)"
    by (simp add: serviceTypes_def)
  with inst have t: "\<forall>k v. map_of ?b k = Some v \<longrightarrow> truthy v"
    by (rule conjunct1 [THEN mp, THEN conjunct2])
  note r = inst [THEN conjunct2, THEN mp, OF t]
  have st: "map_of ?b ''ST'' = Some (JStr ''ssdp:all'')"
    and bi: "map_of ?b ''BOOTID.UPNP.ORG'' = Some (JNum 7337)"
    and xa: "map_of ?b ''X-A'' = None \<and> map_of ?e ''X-A'' = Some (JBool True)"
    and ts: "map_of ?b ''toString'' = None \<and> map_of ?e ''toString'' = Some (JStr ''x'')"
    by (simp_all add: reply_base_def)
  have 1: "map_of (merge ?b ?e) ''ST'' = Some (JStr ''ssdp:all'')"
    using r [THEN conjunct1, THEN spec, THEN spec, THEN mp, OF st] .
  have 2: "map_of (merge ?b ?e) ''BOOTID.UPNP.ORG'' = Some (JNum 7337)"
    using r [THEN conjunct1, THEN spec, THEN spec, THEN mp, OF bi] .
  have 3: "map_of (merge ?b ?e) ''X-A'' = Some (JBool True)"
    using r [THEN conjunct2, THEN conjunct2, THEN spec, THEN spec, THEN mp, OF xa]
    by (simp add: Object_prototype_members_def)
  have 4: "map_of (merge ?b ?e) ''toString'' = Some JObject"
    using r [THEN conjunct2, THEN conjunct2, THEN spec, THEN spec, THEN mp, OF ts]
    by (simp add: Object_prototype_members_def)
  from 1 2 3 4 show ?thesis by simp
qed


section \<open>Server.stop\<close>

lemma notify_headers_NT:
  "st \<noteq> [] \<Longrightarrow> js_get (notify_headers os srv st) ''NT'' = JStr st"
  unfolding notify_headers_def
  by (rule js_get_merge_own_truthy) (simp_all add: notify_base_def)

lemma notify_headers_USN:
  "js_get (notify_headers os srv st) ''USN'' = JStr (''uuid:'' @ uuid srv @ ''::'' @ st)"
  unfolding notify_headers_def
  by (rule js_get_merge_own_truthy) (simp_all add: notify_base_def)

lemma run_acks_five:
  assumes "length acks = 5"
  shows "run_acks 5 acks = [[], [], [], [], [Peer_close]]"
proof -
  from assms obtain a b c d e where "acks = [a, b, c, d, e]"
    by (auto simp: numeral_eq_Suc length_Suc_conv)
  then show ?thesis by (simp add: done_cb_def)
qed

lemma distinct_serviceTypes: "distinct (serviceTypes srv)"
  by (simp add: serviceTypes_def)

lemma uuid_dialServer: "uuid dialServer = ''r-1''"
  by (simp add: dialServer_def demo_options_def demo_os_def new_Server_def str_or_def)

text \<open>
  Claim C2: \<^verbatim>\<open>Server.stop\<close> sends exactly one byebye per service type, in the order
  of the five fixed types, each with the type as NT and \<open>uuid:{uuid}::{type}\<close> as USN
  (whatever the extra headers hold); the five types differ from one another; and for
  every order \<open>acks\<close> in which the five acknowledgments arrive, the first four
  acknowledgments make no call on the peer and the fifth makes the one call of
  \<^verbatim>\<open>close\<close>.
\<close>

theorem stop_byebye_join_barrier:
  "map byebye_nt_usn (fst (stop os srv)) =
     [Some (JStr ''urn:dial-multiscreen-org:service:dial:1'',
            JStr (''uuid:'' @ uuid srv @ ''::urn:dial-multiscreen-org:service:dial:1'')),
      Some (JStr ''urn:dial-multiscreen-org:device:dial:1'',
            JStr (''uuid:'' @ uuid srv @ ''::urn:dial-multiscreen-org:device:dial:1'')),
      Some (JStr ''upnp:rootdevice'', JStr (''uuid:'' @ uuid srv @ ''::upnp:rootdevice'')),
      Some (JStr ''ssdp:all'', JStr (''uuid:'' @ uuid srv @ ''::ssdp:all'')),
      Some (JStr (''uuid:'' @ uuid srv), JStr (''uuid:'' @ uuid srv @ ''::uuid:'' @ uuid srv))] \<and>
   distinct (serviceTypes srv) \<and>
   (\<forall>acks. mset acks = mset (serviceTypes srv) \<longrightarrow>
      run_acks (snd (stop os srv)) acks = [[], [], [], [], [Peer_close]])"
proof (intro conjI allI impI)
  show "map byebye_nt_usn (fst (stop os srv)) =
     [Some (JStr ''urn:dial-multiscreen-org:service:dial:1'',
            JStr (''uuid:'' @ uuid srv @ ''::urn:dial-multiscreen-org:service:dial:1'')),
      Some (JStr ''urn:dial-multiscreen-org:device:dial:1'',
            JStr (''uuid:'' @ uuid srv @ ''::urn:dial-multiscreen-org:device:dial:1'')),
      Some (JStr ''upnp:rootdevice'', JStr (''uuid:'' @ uuid srv @ ''::upnp:rootdevice'')),
      Some (JStr ''ssdp:all'', JStr (''uuid:'' @ uuid srv @ ''::ssdp:all'')),
      Some (JStr (''uuid:'' @ uuid srv), JStr (''uuid:'' @ uuid srv @ ''::uuid:'' @ uuid srv))]"
    by (simp add: stop_def serviceTypes_def byebye_nt_usn_def notify_headers_NT notify_headers_USN)
next
  show "distinct (serviceTypes srv)" by (rule distinct_serviceTypes)
next
  fix acks :: "string list"
  assume "mset acks = mset (serviceTypes srv)"
  then have "length acks = length (serviceTypes srv)"
    by (rule mset_eq_length)
  then have "length acks = 5" by (simp add: serviceTypes_def)
  then show "run_acks (snd (stop os srv)) acks = [[], [], [], [], [Peer_close]]"
    by (simp add: stop_def serviceTypes_def run_acks_five)
qed

theorem stop_byebye_join_barrier_witness:
  "run_acks (snd (stop demo_os dialServer))
     [''ssdp:all'', ''uuid:r-1'', ''urn:dial-multiscreen-org:service:dial:1'',
      ''upnp:rootdevice'', ''urn:dial-multiscreen-org:device:dial:1'']
     = [[], [], [], [], [Peer_close]]"
proof -
  have "mset [''ssdp:all'', ''uuid:r-1'', ''urn:dial-multiscreen-org:service:dial:1'',
              ''upnp:rootdevice'', ''urn:dial-multiscreen-org:device:dial:1'']
        = mset (serviceTypes dialServer)"
    by (simp add: serviceTypes_def uuid_dialServer)
  with stop_byebye_join_barrier [of demo_os dialServer] show ?thesis
    by blast
qed


section \<open>The HTTP handlers\<close>

lemma maxContentLength_floor: "4096 \<le> maxContentLength (new_Server os options)"
  by (simp add: new_Server_def)

lemma call_getApp_known:
  "fst (call_getApp srv s req appName) = Some a \<Longrightarrow>
   call_getApp srv s req appName = (Some a, [Call_getApp appName])"
  by (auto simp: call_getApp_def split: option.splits)

lemma call_getApp_unknown:
  "fst (call_getApp srv s req appName) = None \<Longrightarrow>
   \<exists>calls. call_getApp srv s req appName = (None, calls)"
  by (cases "call_getApp srv s req appName") simp

text \<open>
  Claim C3: for a POST \<^verbatim>\<open>/apps/{name}\<close> whose recorded body length exceeds the
  configured maximum content length: when the provider knows the application, the
  response is 413, the only hook invoked is \<open>getApp\<close> (the launch hook is not), and
  the provider's state is untouched; when the provider does not know the application,
  the response is 404, the existence check coming first. The configured maximum is
  that of a server built by the constructor from any options.
\<close>

theorem post_app_payload_too_large:
  assumes "req_length req = Some n"
    and "maxContentLength (new_Server os options) < int n"
  shows
    "(\<forall>a. fst (call_getApp (new_Server os options) s req appName) = Some a \<longrightarrow>
        post_app (new_Server os options) s req appName =
          \<lparr> h_state = s, h_calls = [Call_getApp appName], h_response = Some (sendStatus [] 413) \<rparr>) \<and>
     (fst (call_getApp (new_Server os options) s req appName) = None \<longrightarrow>
        h_response (post_app (new_Server os options) s req appName) = Some (sendStatus [] 404))"
proof -
  let ?srv = "new_Server os options"
  from assms maxContentLength_floor [of os options] have "n \<noteq> 0" by auto
  with assms have long: "too_long ?srv req" by (simp add: too_long_def)
  show ?thesis
  proof (intro conjI allI impI)
    fix a
    assume "fst (call_getApp ?srv s req appName) = Some a"
    then have "call_getApp ?srv s req appName = (Some a, [Call_getApp appName])"
      by (rule call_getApp_known)
    with long show "post_app ?srv s req appName =
        \<lparr> h_state = s, h_calls = [Call_getApp appName], h_response = Some (sendStatus [] 413) \<rparr>"
      by (simp add: post_app_def)
  next
    assume "fst (call_getApp ?srv s req appName) = None"
    then obtain calls where "call_getApp ?srv s req appName = (None, calls)"
      by (cases "call_getApp ?srv s req appName") auto
    then show "h_response (post_app ?srv s req appName) = Some (sendStatus [] 404)"
      by (simp add: post_app_def)
  qed
qed

lemma maxContentLength_dialServer: "maxContentLength dialServer = 4096"
  by (simp add: dialServer_def demo_options_def new_Server_def)

theorem post_app_payload_too_large_witness:
  "post_app dialServer demo_apps (demo_request\<lparr> req_text := Some (replicate 5000 CHR ''v''), req_length := Some 5000 \<rparr>) ''YouTube''
     = \<lparr> h_state = demo_apps, h_calls = [Call_getApp ''YouTube''], h_response = Some (sendStatus [] 413) \<rparr> \<and>
   h_response (post_app dialServer demo_apps (demo_request\<lparr> req_text := Some (replicate 5000 CHR ''v''), req_length := Some 5000 \<rparr>) ''Netflix'')
     = Some (sendStatus [] 404)"
proof -
  let ?req = "demo_request\<lparr> req_text := Some (replicate 5000 CHR ''v''), req_length := Some 5000 \<rparr>"
  have l: "req_length ?req = Some 5000" by simp
  have m: "maxContentLength (new_Server demo_os demo_options) < int 5000"
    using maxContentLength_dialServer by (simp add: dialServer_def)
  have k: "fst (call_getApp (new_Server demo_os demo_options) demo_apps ?req ''YouTube'') = Some demo_apps"
    by (simp add: call_getApp_def new_Server_def demo_options_def demo_getApp_def)
  have u: "fst (call_getApp (new_Server demo_os demo_options) demo_apps ?req ''Netflix'') = None"
    by (simp add: call_getApp_def new_Server_def demo_options_def demo_getApp_def)
  from post_app_payload_too_large [OF l m, of demo_apps "''YouTube''"] k
       post_app_payload_too_large [OF l m, of demo_apps "''Netflix''"] u
  show ?thesis unfolding dialServer_def by blast
qed

lemma delegate_dialServer:
  "delegate dialServer =
     \<lparr> getApp = Some demo_getApp, launchApp = Some demo_launchApp, stopApp = Some demo_stopApp \<rparr>"
  by (simp add: dialServer_def demo_options_def new_Server_def)

lemma call_getApp_dialServer:
  "call_getApp dialServer apps req appName = (demo_getApp apps req appName, [Call_getApp appName])"
  by (simp add: call_getApp_def delegate_dialServer)





lemma APP_DESC_RENDERER_state:
  "\<exists>pre post. APP_DESC_RENDERER data = pre @ ''<state>'' @ d_state data @ ''</state>'' @ post"
proof -
  obtain pre where pre: "pre =
      ''<?xml version='' @ dq @ ''1.0'' @ dq @ '' encoding='' @ dq @ ''UTF-8'' @ dq @ ''?>'' @ nl
      @ ''<service xmlns='' @ dq @ ''urn:dial-multiscreen-org:schemas:dial'' @ dq
      @ concat (map (\<lambda>(key, v). '' xmlns:'' @ key @ ''='' @ dq @ v @ dq) (d_namespaces data))
      @ '' dialVer='' @ dq @ ''1.7'' @ dq @ ''>'' @ nl
      @ ''  <name>'' @ d_name data @ ''</name>'' @ nl
      @ ''  <options allowStop='' @ dq @ (if d_allowStop data then ''true'' else ''false'')
      @ dq @ ''/>'' @ nl @ ''  ''"
    by simp
  have "\<exists>post. APP_DESC_RENDERER data = pre @ ''<state>'' @ d_state data @ ''</state>'' @ post"
    unfolding APP_DESC_RENDERER_def Let_def pre
    by (simp split: option.splits)
  then show ?thesis by blast
qed

lemma inferred_state_cases:
  "inferred_state a =
     (case state a of
        Some st \<Rightarrow>
          if st \<noteq> [] then st
          else (case pid a of Some l \<Rightarrow> if l \<noteq> [] then ''running'' else ''stopped''
                | None \<Rightarrow> ''stopped'')
      | None \<Rightarrow>
          (case pid a of Some l \<Rightarrow> if l \<noteq> [] then ''running'' else ''stopped''
           | None \<Rightarrow> ''stopped''))"
  by (simp add: inferred_state_def str_or_def opt_truthy_def split: option.splits)

text \<open>
  Claim C4, amended: GET \<^verbatim>\<open>/apps/{name}\<close> answers 404 if and only if the provider
  does not know the application (no \<open>getApp\<close> hook, or the hook returns nothing);
  otherwise it answers 200 with an XML body whose \<open><state>\<close> element holds the
  application info's state when that is a non-empty string, else "running" when the
  pid is a non-empty string, else "stopped".
\<close>

theorem get_app_status_and_state:
  "(map_option rsp_status (h_response (get_app srv s req appName)) = Some 404
      \<longleftrightarrow> fst (call_getApp srv s req appName) = None) \<and>
   (\<forall>a. fst (call_getApp srv s req appName) = Some a \<longrightarrow>
      (\<exists>pre post.
         h_response (get_app srv s req appName) =
           Some \<lparr> rsp_status = 200,
                  rsp_headers = [(''Content-Type'', ''application/xml'')],
                  rsp_body = Some (pre @ ''<state>''
                    @ (case state a of
                         Some st \<Rightarrow>
                           if st \<noteq> [] then st
                           else (case pid a of
                                   Some l \<Rightarrow> if l \<noteq> [] then ''running'' else ''stopped''
                                 | None \<Rightarrow> ''stopped'')
                       | None \<Rightarrow>
                           (case pid a of
                              Some l \<Rightarrow> if l \<noteq> [] then ''running'' else ''stopped''
                            | None \<Rightarrow> ''stopped''))
                    @ ''</state>'' @ post) \<rparr>))"
proof (intro conjI allI impI)
  show "map_option rsp_status (h_response (get_app srv s req appName)) = Some 404
      \<longleftrightarrow> fst (call_getApp srv s req appName) = None"
    by (cases "call_getApp srv s req appName")
       (auto simp: get_app_def sendStatus_def split: option.splits)
next
  fix a
  assume "fst (call_getApp srv s req appName) = Some a"
  then have known: "call_getApp srv s req appName = (Some a, [Call_getApp appName])"
    by (rule call_getApp_known)
  let ?data = "\<lparr> d_name = appName, d_state = inferred_state a,
      d_allowStop = (allowStop a = Some True), d_rel = ''run'', d_href = pid a,
      d_additionalData = additionalData a,
      d_namespaces = (case namespaces a of None \<Rightarrow> [] | Some n \<Rightarrow> n) \<rparr>"
  from APP_DESC_RENDERER_state [of ?data]
  obtain pre post where
    "APP_DESC_RENDERER ?data = pre @ ''<state>'' @ inferred_state a @ ''</state>'' @ post"
    by auto
  with known have "h_response (get_app srv s req appName) =
      Some \<lparr> rsp_status = 200, rsp_headers = [(''Content-Type'', ''application/xml'')],
             rsp_body = Some (pre @ ''<state>'' @ inferred_state a @ ''</state>'' @ post) \<rparr>"
    by (simp add: get_app_def)
  then show "\<exists>pre post.
         h_response (get_app srv s req appName) =
           Some \<lparr> rsp_status = 200,
                  rsp_headers = [(''Content-Type'', ''application/xml'')],
                  rsp_body = Some (pre @ ''<state>''
                    @ (case state a of
                         Some st \<Rightarrow>
                           if st \<noteq> [] then st
                           else (case pid a of
                                   Some l \<Rightarrow> if l \<noteq> [] then ''running'' else ''stopped''
                                 | None \<Rightarrow> ''stopped'')
                       | None \<Rightarrow>
                           (case pid a of
                              Some l \<Rightarrow> if l \<noteq> [] then ''running'' else ''stopped''
                            | None \<Rightarrow> ''stopped''))
                    @ ''</state>'' @ post) \<rparr>"
    unfolding inferred_state_cases by blast
qed

theorem get_app_status_and_state_witness:
  "map_option rsp_status (h_response (get_app dialServer demo_apps demo_request ''Netflix''))
     = Some 404 \<and>
   (\<exists>pre post.
      h_response (get_app dialServer (demo_apps\<lparr> state := None, pid := Some ''42'' \<rparr>)
                    demo_request ''YouTube'') =
        Some \<lparr> rsp_status = 200,
               rsp_headers = [(''Content-Type'', ''application/xml'')],
               rsp_body = Some (pre @ ''<state>running</state>'' @ post) \<rparr>)"
proof -
  let ?a = "demo_apps\<lparr> state := None, pid := Some ''42'' \<rparr>"
  have unknown: "fst (call_getApp dialServer demo_apps demo_request ''Netflix'') = None"
    by (simp add: call_getApp_dialServer demo_getApp_def)
  have known: "fst (call_getApp dialServer ?a demo_request ''YouTube'') = Some ?a"
    by (simp add: call_getApp_dialServer demo_getApp_def)
  have 1: "map_option rsp_status (h_response (get_app dialServer demo_apps demo_request ''Netflix''))
     = Some 404"
    using get_app_status_and_state [of dialServer demo_apps demo_request "''Netflix''"] unknown
    by blast
  from get_app_status_and_state [of dialServer ?a demo_request "''YouTube''"] known
  obtain pre post where "h_response (get_app dialServer ?a demo_request ''YouTube'') =
        Some \<lparr> rsp_status = 200,
               rsp_headers = [(''Content-Type'', ''application/xml'')],
               rsp_body = Some (pre @ ''<state>''
                    @ (case state ?a of
                         Some st \<Rightarrow>
                           if st \<noteq> [] then st
                           else (case pid ?a of
                                   Some l \<Rightarrow> if l \<noteq> [] then ''running'' else ''stopped''
                                 | None \<Rightarrow> ''stopped'')
                       | None \<Rightarrow>
                           (case pid ?a of
                              Some l \<Rightarrow> if l \<noteq> [] then ''running'' else ''stopped''
                            | None \<Rightarrow> ''stopped''))
                    @ ''</state>'' @ post) \<rparr>"
    by blast
  then have "h_response (get_app dialServer ?a demo_request ''YouTube'') =
        Some \<lparr> rsp_status = 200,
               rsp_headers = [(''Content-Type'', ''application/xml'')],
               rsp_body = Some (pre @ ''<state>running</state>'' @ post) \<rparr>"
    by simp
  with 1 show ?thesis by blast
qed

text \<open>
  Claim C4 as stated takes the explicit state whenever it is present, and "running"
  whenever a pid is present (\<open>spec_inferred_state\<close>). An application info with the
  empty string as its explicit state and the pid "42" is rendered with the state
  "running", not with its explicit state; one with no state and the empty string as
  its pid is rendered "stopped", not "running".
\<close>

theorem get_app_explicit_state_counterexample:
  "map_option rsp_body
     (h_response (get_app dialServer (demo_apps\<lparr> state := Some [], pid := Some ''42'' \<rparr>)
                    demo_request ''YouTube''))
     = Some (Some (
         ''<?xml version='' @ dq @ ''1.0'' @ dq @ '' encoding='' @ dq @ ''UTF-8'' @ dq @ ''?>'' @ nl
         @ ''<service xmlns='' @ dq @ ''urn:dial-multiscreen-org:schemas:dial'' @ dq
         @ '' dialVer='' @ dq @ ''1.7'' @ dq @ ''>'' @ nl
         @ ''  <name>YouTube</name>'' @ nl
         @ ''  <options allowStop='' @ dq @ ''true'' @ dq @ ''/>'' @ nl
         @ ''  <state>running</state>'' @ nl
         @ ''  <link rel='' @ dq @ ''run'' @ dq @ '' href='' @ dq @ ''42'' @ dq @ '' />'' @ nl
         @ ''</service>'' @ nl)) \<and>
   spec_inferred_state (demo_apps\<lparr> state := Some [], pid := Some ''42'' \<rparr>) = [] \<and>
   map_option rsp_body
     (h_response (get_app dialServer (demo_apps\<lparr> state := None, pid := Some [] \<rparr>)
                    demo_request ''YouTube''))
     = Some (Some (
         ''<?xml version='' @ dq @ ''1.0'' @ dq @ '' encoding='' @ dq @ ''UTF-8'' @ dq @ ''?>'' @ nl
         @ ''<service xmlns='' @ dq @ ''urn:dial-multiscreen-org:schemas:dial'' @ dq
         @ '' dialVer='' @ dq @ ''1.7'' @ dq @ ''>'' @ nl
         @ ''  <name>YouTube</name>'' @ nl
         @ ''  <options allowStop='' @ dq @ ''true'' @ dq @ ''/>'' @ nl
         @ ''  <state>stopped</state>'' @ nl
         @ ''</service>'' @ nl)) \<and>
   spec_inferred_state (demo_apps\<lparr> state := None, pid := Some [] \<rparr>) = ''running''"
  by (simp add: get_app_def call_getApp_dialServer demo_getApp_def demo_apps_def
        APP_DESC_RENDERER_def inferred_state_def str_or_def opt_truthy_def
        spec_inferred_state_def)

lemma setHeader_valid:
  "valid_header_value v \<Longrightarrow> setHeader [] field v = Some [(field, v)]"
  by (simp add: setHeader_def)

lemma setHeader_invalid:
  "\<not> valid_header_value v \<Longrightarrow> setHeader hdrs field v = None"
  by (simp add: setHeader_def)

text \<open>
  Claim C1, amended: for a POST \<^verbatim>\<open>/apps/{name}\<close> where the provider knows the
  application (\<open>a\<close> is the application info it returns in the state \<open>s\<close> the
  request finds), the recorded body length is within the configured maximum, and the
  launch hook completes with the pid \<open>p\<close> and the error \<open>err\<close>: without an error,
  and when the LOCATION value built from a non-empty pid holds no character that a
  header value may not hold, the status is 201 when the state inferred from \<open>a\<close> is
  "stopped" and 200 otherwise, the inferred state being the state of \<open>a\<close> when that
  is a non-empty string, else "running" when the pid of \<open>a\<close> is a non-empty string,
  else "stopped"; the LOCATION header is set exactly when \<open>p\<close> is a non-empty
  string, to the base URL followed by \<^verbatim>\<open>/apps/{name}/{pid}\<close>; with an error the
  status is 503. The provider's state after the request is the one the hook left, yet the
  status is decided by \<open>a\<close>.
\<close>

theorem post_app_launch_status:
  assumes known: "fst (call_getApp srv s req appName) = Some a"
    and fits: "\<forall>n. req_length req = Some n \<longrightarrow> int n \<le> maxContentLength srv"
    and hook: "launchApp (delegate srv) = Some f"
    and completes:
      "f s req appName (if opt_truthy (req_text req) then req_text req else None)
         = (s', Some (p, err))"
  shows
    "(err = None \<and>
      (\<forall>l. p = Some l \<and> l \<noteq> [] \<longrightarrow>
         valid_header_value (baseURL srv req @ ''/apps/'' @ appName @ ''/'' @ l)) \<longrightarrow>
        (\<exists>hdrs.
           h_response (post_app srv s req appName) =
             Some (sendStatus hdrs
               (if (case state a of
                      Some st \<Rightarrow>
                        if st \<noteq> [] then st
                        else (case pid a of
                                Some l \<Rightarrow> if l \<noteq> [] then ''running'' else ''stopped''
                              | None \<Rightarrow> ''stopped'')
                    | None \<Rightarrow>
                        (case pid a of
                           Some l \<Rightarrow> if l \<noteq> [] then ''running'' else ''stopped''
                         | None \<Rightarrow> ''stopped'')) = ''stopped''
                then 201 else 200)) \<and>
           (map_of hdrs ''LOCATION'' \<noteq> None \<longleftrightarrow> (\<exists>l. p = Some l \<and> l \<noteq> [])) \<and>
           (\<forall>l. p = Some l \<and> l \<noteq> [] \<longrightarrow>
              map_of hdrs ''LOCATION'' = Some (baseURL srv req @ ''/apps/'' @ appName @ ''/'' @ l)))) \<and>
     (err \<noteq> None \<longrightarrow> h_response (post_app srv s req appName) = Some (sendStatus [] 503)) \<and>
     h_state (post_app srv s req appName) = s'"
proof -
  from known have k: "call_getApp srv s req appName = (Some a, [Call_getApp appName])"
    by (rule call_getApp_known)
  from fits have short: "\<not> too_long srv req"
    by (auto simp: too_long_def split: option.splits)
  let ?code = "if inferred_state a = ''stopped'' then 201 else 200 :: nat"
  let ?hdrs = "case p of
                 None \<Rightarrow> []
               | Some l \<Rightarrow>
                   if l \<noteq> [] then [(''LOCATION'', baseURL srv req @ ''/apps/'' @ appName @ ''/'' @ l)]
                   else []"
  have ok: "h_response (post_app srv s req appName) = Some (sendStatus ?hdrs ?code)"
    if "err = None"
      and "\<forall>l. p = Some l \<and> l \<noteq> [] \<longrightarrow>
             valid_header_value (baseURL srv req @ ''/apps/'' @ appName @ ''/'' @ l)"
  proof (cases p)
    case None
    with that k short hook completes show ?thesis
      by (simp add: post_app_def Let_def)
  next
    case (Some l)
    show ?thesis
    proof (cases "l = []")
      case True
      with Some that k short hook completes show ?thesis
        by (simp add: post_app_def Let_def)
    next
      case False
      with Some that have "valid_header_value (baseURL srv req @ ''/apps/'' @ appName @ ''/'' @ l)"
        by simp
      then have "setHeader [] ''LOCATION'' (baseURL srv req @ ''/apps/'' @ appName @ ''/'' @ l)
          = Some [(''LOCATION'', baseURL srv req @ ''/apps/'' @ appName @ ''/'' @ l)]"
        by (rule setHeader_valid)
      with False Some that(1) k short hook completes show ?thesis
        by (simp add: post_app_def Let_def)
    qed
  qed
  have ko: "err \<noteq> None \<Longrightarrow> h_response (post_app srv s req appName) = Some (sendStatus [] 503)"
    using k short hook completes
    by (auto simp: post_app_def Let_def split: option.splits)
  have st: "h_state (post_app srv s req appName) = s'"
    using k short hook completes
    by (simp add: post_app_def Let_def split: option.splits)
  have h1: "map_of ?hdrs ''LOCATION'' \<noteq> None \<longleftrightarrow> (\<exists>l. p = Some l \<and> l \<noteq> [])"
    by (auto split: option.splits)
  have h2: "\<forall>l. p = Some l \<and> l \<noteq> [] \<longrightarrow>
      map_of ?hdrs ''LOCATION'' = Some (baseURL srv req @ ''/apps/'' @ appName @ ''/'' @ l)"
    by simp
  show ?thesis
  proof (intro conjI impI)
    assume "err = None \<and>
      (\<forall>l. p = Some l \<and> l \<noteq> [] \<longrightarrow>
         valid_header_value (baseURL srv req @ ''/apps/'' @ appName @ ''/'' @ l))"
    then have "h_response (post_app srv s req appName) = Some (sendStatus ?hdrs ?code)"
      using ok by blast
    with h1 h2 show "\<exists>hdrs.
           h_response (post_app srv s req appName) =
             Some (sendStatus hdrs
               (if (case state a of
                      Some st \<Rightarrow>
                        if st \<noteq> [] then st
                        else (case pid a of
                                Some l \<Rightarrow> if l \<noteq> [] then ''running'' else ''stopped''
                              | None \<Rightarrow> ''stopped'')
                    | None \<Rightarrow>
                        (case pid a of
                           Some l \<Rightarrow> if l \<noteq> [] then ''running'' else ''stopped''
                         | None \<Rightarrow> ''stopped'')) = ''stopped''
                then 201 else 200)) \<and>
           (map_of hdrs ''LOCATION'' \<noteq> None \<longleftrightarrow> (\<exists>l. p = Some l \<and> l \<noteq> [])) \<and>
           (\<forall>l. p = Some l \<and> l \<noteq> [] \<longrightarrow>
              map_of hdrs ''LOCATION'' = Some (baseURL srv req @ ''/apps/'' @ appName @ ''/'' @ l))"
      unfolding inferred_state_cases by blast
  next
    assume "err \<noteq> None"
    then show "h_response (post_app srv s req appName) = Some (sendStatus [] 503)"
      by (rule ko)
  next
    show "h_state (post_app srv s req appName) = s'" by (rule st)
  qed
qed

lemma baseURL_demo: "baseURL dialServer demo_request = ''http://tv.local:3000/dial''"
  by (simp add: baseURL_def dialServer_def demo_options_def new_Server_def demo_request_def
        str_or_def template_number_def String_number_def decimal.simps)

lemma valid_demo_location:
  "valid_header_value (baseURL dialServer demo_request @ ''/apps/'' @ ''YouTube'' @ ''/'' @ ''run'')"
  by (simp add: baseURL_demo valid_header_value_def invalid_header_chars_def)

theorem post_app_launch_status_witness:
  "(\<exists>hdrs.
      h_response (post_app dialServer demo_apps demo_request ''YouTube'') = Some (sendStatus hdrs 201) \<and>
      map_of hdrs ''LOCATION'' = Some ''http://tv.local:3000/dial/apps/YouTube/run'') \<and>
   inferred_state (h_state (post_app dialServer demo_apps demo_request ''YouTube'')) = ''running''"
proof -
  have known: "fst (call_getApp dialServer demo_apps demo_request ''YouTube'') = Some demo_apps"
    by (simp add: call_getApp_dialServer demo_getApp_def)
  have fits: "\<forall>n. req_length demo_request = Some n \<longrightarrow> int n \<le> maxContentLength dialServer"
    by (simp add: demo_request_def)
  have hook: "launchApp (delegate dialServer) = Some demo_launchApp"
    by (simp add: delegate_dialServer)
  have completes:
    "demo_launchApp demo_apps demo_request ''YouTube''
       (if opt_truthy (req_text demo_request) then req_text demo_request else None)
       = (demo_apps\<lparr> pid := Some ''run'', state := Some ''running'' \<rparr>, Some (Some ''run'', None))"
    by (simp add: demo_launchApp_def)
  have valid: "(None :: js_error option) = None \<and>
      (\<forall>l. Some ''run'' = Some l \<and> l \<noteq> [] \<longrightarrow>
         valid_header_value (baseURL dialServer demo_request @ ''/apps/'' @ ''YouTube'' @ ''/'' @ l))"
    using valid_demo_location by simp
  note inst = post_app_launch_status [OF known fits hook completes]
  from inst [THEN conjunct1, THEN mp, OF valid] obtain hdrs where
    r: "h_response (post_app dialServer demo_apps demo_request ''YouTube'') =
          Some (sendStatus hdrs
            (if (case state demo_apps of
                      Some st \<Rightarrow>
                        if st \<noteq> [] then st
                        else (case pid demo_apps of
                                Some l \<Rightarrow> if l \<noteq> [] then ''running'' else ''stopped''
                              | None \<Rightarrow> ''stopped'')
                    | None \<Rightarrow>
                        (case pid demo_apps of
                           Some l \<Rightarrow> if l \<noteq> [] then ''running'' else ''stopped''
                         | None \<Rightarrow> ''stopped'')) = ''stopped''
                then 201 else 200))"
    and l: "\<forall>l. Some ''run'' = Some l \<and> l \<noteq> [] \<longrightarrow>
              map_of hdrs ''LOCATION''
                = Some (baseURL dialServer demo_request @ ''/apps/'' @ ''YouTube'' @ ''/'' @ l)"
    by blast
  from r have r': "h_response (post_app dialServer demo_apps demo_request ''YouTube'')
      = Some (sendStatus hdrs 201)"
    by (simp add: demo_apps_def)
  from l have l': "map_of hdrs ''LOCATION'' = Some ''http://tv.local:3000/dial/apps/YouTube/run''"
    by (simp add: baseURL_demo)
  from inst have "h_state (post_app dialServer demo_apps demo_request ''YouTube'')
      = demo_apps\<lparr> pid := Some ''run'', state := Some ''running'' \<rparr>"
    by blast
  then have s: "inferred_state (h_state (post_app dialServer demo_apps demo_request ''YouTube''))
      = ''running''"
    by (simp add: inferred_state_def str_or_def)
  from r' l' s show ?thesis by blast
qed

text \<open>
  Claim C1 as stated infers the state as the explicit state whenever one is present, and
  as "running" whenever a pid is present (\<open>spec_inferred_state\<close>). For an application
  info whose explicit state is the empty string, and for one with no state whose pid is
  the empty string, that state is not "stopped", so the claim asks for 200; the handler
  answers 201.
\<close>

theorem post_app_explicit_state_counterexample:
  "map_option rsp_status
     (h_response (post_app dialServer (demo_apps\<lparr> state := Some [] \<rparr>) demo_request ''YouTube''))
     = Some 201 \<and>
   spec_inferred_state (demo_apps\<lparr> state := Some [] \<rparr>) \<noteq> ''stopped'' \<and>
   map_option rsp_status
     (h_response (post_app dialServer (demo_apps\<lparr> state := None, pid := Some [] \<rparr>)
                    demo_request ''YouTube''))
     = Some 201 \<and>
   spec_inferred_state (demo_apps\<lparr> state := None, pid := Some [] \<rparr>) \<noteq> ''stopped''"
proof -
  have loc: "setHeader [] ''LOCATION''
      (baseURL dialServer demo_request @ ''/apps/'' @ ''YouTube'' @ ''/'' @ ''run'')
      = Some [(''LOCATION'', baseURL dialServer demo_request @ ''/apps/'' @ ''YouTube'' @ ''/'' @ ''run'')]"
    using valid_demo_location by (rule setHeader_valid)
  show ?thesis
    using loc
    by (simp add: post_app_def call_getApp_dialServer demo_getApp_def demo_apps_def
        delegate_dialServer demo_launchApp_def too_long_def demo_request_def
        inferred_state_def str_or_def opt_truthy_def spec_inferred_state_def sendStatus_def)
qed

text \<open>
  A launch hook that reports a pid holding a line feed: \<^verbatim>\<open>setHeader\<close> refuses the
  LOCATION value, and the answer is the error 500 with no LOCATION header.
\<close>

lemma post_app_location_refused:
  "h_response
     (post_app
        (dialServer\<lparr> delegate := (delegate dialServer)
           \<lparr> launchApp := Some (\<lambda>apps req appName launchData.
                (apps, Some (Some [CHR ''a'', CHR 0x0A, CHR ''b''], None))) \<rparr> \<rparr>)
        demo_apps demo_request ''YouTube'')
     = Some \<lparr> rsp_status = 500, rsp_headers = [], rsp_body = None \<rparr>"
proof -
  let ?srv = "dialServer\<lparr> delegate := (delegate dialServer)
           \<lparr> launchApp := Some (\<lambda>apps req appName launchData.
                (apps, Some (Some [CHR ''a'', CHR 0x0A, CHR ''b''], None))) \<rparr> \<rparr>"
  have "\<not> valid_header_value
      (baseURL ?srv demo_request @ ''/apps/'' @ ''YouTube'' @ ''/'' @ [CHR ''a'', CHR 0x0A, CHR ''b''])"
    by (simp add: valid_header_value_def invalid_header_chars_def)
  then have "setHeader [] ''LOCATION''
      (baseURL ?srv demo_request @ ''/apps/'' @ ''YouTube'' @ ''/'' @ [CHR ''a'', CHR 0x0A, CHR ''b''])
      = None"
    by (rule setHeader_invalid)
  then show ?thesis
    by (simp add: post_app_def call_getApp_def delegate_dialServer demo_getApp_def demo_apps_def
        too_long_def demo_request_def inferred_state_def str_or_def opt_truthy_def
        express_error_def)
qed


section \<open>The discovery client\<close>

lemma services_read_None:
  "services_read sv l = None \<longleftrightarrow> sv l = None \<and> l \<notin> set Object_prototype_members"
  by (simp add: services_read_def split: option.splits)

lemma services_read_cases:
  "services_read sv l = Some r \<longleftrightarrow>
     (\<exists>h. r = Stored h \<and> sv l = Some h) \<or>
     (r = Inherited \<and> sv l = None \<and> l \<in> set Object_prototype_members)"
  by (cases "sv l") (auto simp: services_read_def)

lemma on_found_cases:
  "on_found sv hs = (sv, []) \<or>
   (\<exists>l. map_of hs ''LOCATION'' = Some l \<and> l \<noteq> [] \<and> sv l = None \<and>
        on_found sv hs = (sv(l \<mapsto> hs), [Emit_found l hs]))"
  by (cases "map_of hs ''LOCATION''") (simp_all add: on_found_def services_read_None)

lemma on_notify_cases:
  "on_notify sv hs = (sv, []) \<or>
   (\<exists>l. sv l = None \<and> on_notify sv hs = (sv(l \<mapsto> hs), [Emit_found l hs])) \<or>
   (\<exists>l h. sv l = Some h \<and> on_notify sv hs = (sv(l := None), [Emit_disappear l (Stored h)])) \<or>
   (\<exists>l. sv l = None \<and> l \<in> set Object_prototype_members \<and>
        on_notify sv hs = (sv, [Emit_disappear l Inherited]))"
proof (cases "map_of hs ''NT''")
  case None
  then show ?thesis by (simp add: on_notify_def Let_def)
next
  case nt: (Some t)
  show ?thesis
  proof (cases "map_of hs ''LOCATION''")
    case None
    with nt show ?thesis by (simp add: on_notify_def Let_def)
  next
    case loc: (Some l)
    show ?thesis
    proof (cases "services_read sv l")
      case None
      then have "sv l = None" by (simp add: services_read_None)
      with None nt loc show ?thesis by (simp add: on_notify_def Let_def)
    next
      case (Some r)
      then consider h where "r = Stored h" "sv l = Some h"
        | "r = Inherited" "sv l = None" "l \<in> set Object_prototype_members"
        by (auto simp: services_read_cases)
      then show ?thesis
      proof cases
        case 1
        with Some nt loc show ?thesis by (simp add: on_notify_def Let_def)
      next
        case 2
        then have "sv(l := None) = sv" by auto
        with 2 Some nt loc show ?thesis by (simp add: on_notify_def Let_def)
      qed
    qed
  qed
qed

lemma announced_step:
  assumes "announced (fst (client_step sv i)) tr"
  shows "announced sv (In i # map Out (snd (client_step sv i)) @ tr)"
proof (cases i)
  case (Ev_found hs)
  with assms on_found_cases [of sv hs] show ?thesis by auto
next
  case (Ev_notify hs)
  with assms on_notify_cases [of sv hs] show ?thesis by auto
qed (use assms in \<open>auto simp: refresh_def\<close>)

lemma announced_observe: "announced sv (observe sv inputs)"
proof (induction inputs arbitrary: sv)
  case Nil
  show ?case by simp
next
  case (Cons i inputs)
  have "announced (fst (client_step sv i)) (observe (fst (client_step sv i)) inputs)"
    by (rule Cons.IH)
  then show ?case by (simp add: announced_step)
qed

lemma announced_suffix: "announced m (a @ tr) \<Longrightarrow> \<exists>m'. announced m' tr"
proof (induction a arbitrary: m)
  case Nil
  then show ?case by auto
next
  case (Cons x a)
  then show ?case by (cases "(m, x # a @ tr)" rule: announced.cases) auto
qed

lemma announced_found_again:
  "announced m (b @ Out (Emit_found l h') # c) \<Longrightarrow> m l \<noteq> None \<Longrightarrow>
   In Op_refresh \<in> set b \<or> (\<exists>r. Out (Emit_disappear l r) \<in> set b)"
proof (induction b arbitrary: m)
  case Nil
  then show ?case by simp
next
  case (Cons x b)
  let ?rest = "b @ Out (Emit_found l h') # c"
  let ?goal = "In Op_refresh \<in> set (x # b) \<or> (\<exists>r. Out (Emit_disappear l r) \<in> set (x # b))"
  have later: ?goal
    if "In Op_refresh \<in> set b \<or> (\<exists>r. Out (Emit_disappear l r) \<in> set b)"
    using that by auto
  have keep: ?goal if "announced m ?rest"
    using Cons.IH [OF that Cons.prems(2)] by (rule later)
  show ?case
  proof (cases x)
    case (In i)
    show ?thesis
    proof (cases "i = Op_refresh")
      case True
      with In show ?thesis by simp
    next
      case False
      with In Cons.prems(1) have "announced m ?rest" by (cases i) simp_all
      then show ?thesis by (rule keep)
    qed
  next
    case (Out e)
    show ?thesis
    proof (cases e)
      case (Emit_found l1 h1)
      with Out Cons.prems(1) have "announced (m(l1 \<mapsto> h1)) ?rest" by simp
      moreover have "(m(l1 \<mapsto> h1)) l \<noteq> None" using Cons.prems(2) by simp
      ultimately show ?thesis using Cons.IH later by blast
    next
      case (Emit_disappear l1 r1)
      show ?thesis
      proof (cases "l1 = l")
        case True
        with Out Emit_disappear show ?thesis by auto
      next
        case False
        show ?thesis
        proof (cases r1)
          case (Stored h1)
          with Out Emit_disappear Cons.prems(1) have "announced (m(l1 := None)) ?rest" by simp
          moreover have "(m(l1 := None)) l \<noteq> None" using Cons.prems(2) False by simp
          ultimately show ?thesis using Cons.IH later by blast
        next
          case Inherited
          with Out Emit_disappear Cons.prems(1) have "announced m ?rest" by simp
          then show ?thesis by (rule keep)
        qed
      qed
    next
      case Emit_ready
      with Out Cons.prems(1) have "announced m ?rest" by simp
      then show ?thesis by (rule keep)
    next
      case Emit_stop
      with Out Cons.prems(1) have "announced m ?rest" by simp
      then show ?thesis by (rule keep)
    next
      case (Do_search t)
      with Out Cons.prems(1) have "announced m ?rest" by simp
      then show ?thesis by (rule keep)
    next
      case Do_start
      with Out Cons.prems(1) have "announced m ?rest" by simp
      then show ?thesis by (rule keep)
    next
      case Do_close
      with Out Cons.prems(1) have "announced m ?rest" by simp
      then show ?thesis by (rule keep)
    qed
  qed
qed

lemma announced_found_once:
  assumes "announced m tr"
  shows "found_once_until_disappear_or_refresh tr"
  unfolding found_once_until_disappear_or_refresh_def
proof (intro allI impI)
  fix a b c l h h'
  assume "tr = a @ Out (Emit_found l h) # b @ Out (Emit_found l h') # c"
  with assms obtain m' where "announced m' (Out (Emit_found l h) # b @ Out (Emit_found l h') # c)"
    using announced_suffix by blast
  then have "announced (m'(l \<mapsto> h)) (b @ Out (Emit_found l h') # c)"
    by simp
  then show "In Op_refresh \<in> set b \<or> (\<exists>r. Out (Emit_disappear l r) \<in> set b)"
    by (rule announced_found_again) simp
qed

lemma disappear_emitted:
  assumes "Emit_disappear l r \<in> set (snd (client_step sv i))"
  shows "(\<exists>h. r = Stored h \<and> sv l = Some h \<and> fst (client_step sv i) l = None) \<or>
         (r = Inherited \<and> l \<in> set Object_prototype_members)"
proof (cases i)
  case (Ev_found hs)
  with assms on_found_cases [of sv hs] show ?thesis by auto
next
  case (Ev_notify hs)
  with assms on_notify_cases [of sv hs] show ?thesis by auto
qed (use assms in \<open>auto simp: refresh_def\<close>)

lemma byebye_ignored:
  assumes "map_of hs ''NTS'' = Some ''ssdp:byebye''"
    and "(\<forall>l. map_of hs ''LOCATION'' = Some l \<longrightarrow>
             sv l = None \<and> l \<notin> set Object_prototype_members) \<or>
         (\<forall>t. map_of hs ''NT'' = Some t \<longrightarrow> t \<notin> set client_serviceTypes)"
  shows "on_notify sv hs = (sv, [])"
proof (cases "map_of hs ''NT''")
  case None
  then show ?thesis by (simp add: on_notify_def Let_def)
next
  case nt: (Some t)
  show ?thesis
  proof (cases "t \<in> set client_serviceTypes")
    case False
    with nt show ?thesis by (simp add: on_notify_def Let_def)
  next
    case True
    with nt assms(2) have loc: "\<forall>l. map_of hs ''LOCATION'' = Some l \<longrightarrow>
        sv l = None \<and> l \<notin> set Object_prototype_members"
      by auto
    show ?thesis
    proof (cases "map_of hs ''LOCATION''")
      case None
      with nt show ?thesis by (simp add: on_notify_def Let_def)
    next
      case (Some l)
      with loc have "services_read sv l = None" by (simp add: services_read_None)
      with Some nt assms(1) show ?thesis by (simp add: on_notify_def Let_def)
    qed
  qed
qed

text \<open>
  Claim C8, amended: in every run of the client from its construction, over any
  sequence of transport events and method calls, "found" is emitted at most once per
  location until a "disappear" for that location is emitted or \<^verbatim>\<open>refresh\<close> is
  called; for a location that is not the name of a member of \<^verbatim>\<open>Object.prototype\<close>,
  "disappear" is emitted only when the location is recorded, carries the headers stored
  for it (those of its "found"), and removes the entry; and a byebye for such a location
  when it is not recorded, or a byebye with a type that is not tracked, emits nothing
  and changes nothing.
\<close>

theorem client_found_once_until_disappear_or_refresh:
  "announced Map.empty (observe Map.empty inputs) \<and>
   found_once_until_disappear_or_refresh (observe Map.empty inputs) \<and>
   (\<forall>sv i l r.
      Emit_disappear l r \<in> set (snd (client_step sv i)) \<and> l \<notin> set Object_prototype_members \<longrightarrow>
      (\<exists>h. r = Stored h \<and> sv l = Some h) \<and> fst (client_step sv i) l = None) \<and>
   (\<forall>sv hs.
      map_of hs ''NTS'' = Some ''ssdp:byebye'' \<and>
      ((\<forall>l. map_of hs ''LOCATION'' = Some l \<longrightarrow>
             sv l = None \<and> l \<notin> set Object_prototype_members) \<or>
       (\<forall>t. map_of hs ''NT'' = Some t \<longrightarrow> t \<notin> set client_serviceTypes)) \<longrightarrow>
      client_step sv (Ev_notify hs) = (sv, []))"
proof (intro conjI)
  show 1: "announced Map.empty (observe Map.empty inputs)"
    by (rule announced_observe)
  from 1 show "found_once_until_disappear_or_refresh (observe Map.empty inputs)"
    by (rule announced_found_once)
  show "\<forall>sv i l r.
      Emit_disappear l r \<in> set (snd (client_step sv i)) \<and> l \<notin> set Object_prototype_members \<longrightarrow>
      (\<exists>h. r = Stored h \<and> sv l = Some h) \<and> fst (client_step sv i) l = None"
  proof (intro allI impI)
    fix sv :: services and i l r
    assume "Emit_disappear l r \<in> set (snd (client_step sv i)) \<and> l \<notin> set Object_prototype_members"
    then have e: "Emit_disappear l r \<in> set (snd (client_step sv i))"
      and n: "l \<notin> set Object_prototype_members"
      by simp_all
    from disappear_emitted [OF e] n
    show "(\<exists>h. r = Stored h \<and> sv l = Some h) \<and> fst (client_step sv i) l = None"
      by blast
  qed
  show "\<forall>sv hs.
      map_of hs ''NTS'' = Some ''ssdp:byebye'' \<and>
      ((\<forall>l. map_of hs ''LOCATION'' = Some l \<longrightarrow>
             sv l = None \<and> l \<notin> set Object_prototype_members) \<or>
       (\<forall>t. map_of hs ''NT'' = Some t \<longrightarrow> t \<notin> set client_serviceTypes)) \<longrightarrow>
      client_step sv (Ev_notify hs) = (sv, [])"
  proof (intro allI impI)
    fix sv :: services and hs
    assume a: "map_of hs ''NTS'' = Some ''ssdp:byebye'' \<and>
      ((\<forall>l. map_of hs ''LOCATION'' = Some l \<longrightarrow>
             sv l = None \<and> l \<notin> set Object_prototype_members) \<or>
       (\<forall>t. map_of hs ''NT'' = Some t \<longrightarrow> t \<notin> set client_serviceTypes))"
    have "on_notify sv hs = (sv, [])"
      by (rule byebye_ignored [OF a [THEN conjunct1] a [THEN conjunct2]])
    then show "client_step sv (Ev_notify hs) = (sv, [])" by simp
  qed
qed

lemma tv_location_nonempty: "tv_location \<noteq> []"
  by (simp add: tv_location_def)

lemma tv_location_own: "tv_location \<notin> set Object_prototype_members"
  by (simp add: tv_location_def Object_prototype_members_def)

lemma tv_reply_lookup: "map_of tv_reply ''LOCATION'' = Some tv_location"
  by (simp add: tv_reply_def)

lemma tv_alive_lookup:
  "map_of tv_alive ''LOCATION'' = Some tv_location"
  "map_of tv_alive ''NTS'' = Some ''ssdp:alive''"
  "map_of tv_alive ''NT'' = Some ''urn:dial-multiscreen-org:service:dial:1''"
  by (simp_all add: tv_alive_def)

lemma tv_byebye_lookup:
  "map_of tv_byebye ''LOCATION'' = Some tv_location"
  "map_of tv_byebye ''NTS'' = Some ''ssdp:byebye''"
  "map_of tv_byebye ''NT'' = Some ''urn:dial-multiscreen-org:service:dial:1''"
  by (simp_all add: tv_byebye_def)

lemma tv_unrecorded: "services_read Map.empty tv_location = None"
  by (simp add: services_read_None tv_location_own)

lemma tv_recorded: "services_read [tv_location \<mapsto> h] tv_location = Some (Stored h)"
  by (simp add: services_read_def)

lemmas tv_lookups =
  tv_location_nonempty tv_reply_lookup tv_alive_lookup tv_byebye_lookup client_serviceTypes_def
  tv_unrecorded tv_recorded

lemma observe_tv:
  "observe Map.empty [Ev_found tv_reply, Ev_notify tv_alive, Ev_notify tv_byebye, Ev_notify tv_byebye,
                      Ev_notify tv_alive]
     = [In (Ev_found tv_reply), Out (Emit_found tv_location tv_reply), In (Ev_notify tv_alive),
        In (Ev_notify tv_byebye), Out (Emit_disappear tv_location (Stored tv_reply)),
        In (Ev_notify tv_byebye), In (Ev_notify tv_alive), Out (Emit_found tv_location tv_alive)]"
  by (simp add: on_found_def on_notify_def tv_lookups)

theorem client_found_once_until_disappear_or_refresh_witness:
  "(In Op_refresh \<in> set [In (Ev_notify tv_alive), In (Ev_notify tv_byebye),
                         Out (Emit_disappear tv_location (Stored tv_reply)), In (Ev_notify tv_byebye),
                         In (Ev_notify tv_alive)] \<or>
    (\<exists>r. Out (Emit_disappear tv_location r)
             \<in> set [In (Ev_notify tv_alive), In (Ev_notify tv_byebye),
                    Out (Emit_disappear tv_location (Stored tv_reply)), In (Ev_notify tv_byebye),
                    In (Ev_notify tv_alive)])) \<and>
   [tv_location \<mapsto> tv_reply] tv_location = Some tv_reply \<and>
   fst (client_step [tv_location \<mapsto> tv_reply] (Ev_notify tv_byebye)) tv_location = None \<and>
   client_step Map.empty (Ev_notify tv_byebye) = (Map.empty, [])"
proof -
  let ?inputs = "[Ev_found tv_reply, Ev_notify tv_alive, Ev_notify tv_byebye, Ev_notify tv_byebye,
                  Ev_notify tv_alive]"
  let ?b = "[In (Ev_notify tv_alive), In (Ev_notify tv_byebye),
             Out (Emit_disappear tv_location (Stored tv_reply)), In (Ev_notify tv_byebye),
             In (Ev_notify tv_alive)]"
  note inst = client_found_once_until_disappear_or_refresh [of ?inputs]
  from inst have "found_once_until_disappear_or_refresh (observe Map.empty ?inputs)"
    by blast
  then have "\<forall>a b c l h h'.
      observe Map.empty ?inputs = a @ Out (Emit_found l h) # b @ Out (Emit_found l h') # c \<longrightarrow>
      In Op_refresh \<in> set b \<or> (\<exists>r. Out (Emit_disappear l r) \<in> set b)"
    by (simp only: found_once_until_disappear_or_refresh_def)
  moreover have "observe Map.empty ?inputs =
      [In (Ev_found tv_reply)] @ Out (Emit_found tv_location tv_reply) # ?b
        @ Out (Emit_found tv_location tv_alive) # []"
    by (subst observe_tv) simp
  ultimately have 1: "In Op_refresh \<in> set ?b \<or> (\<exists>r. Out (Emit_disappear tv_location r) \<in> set ?b)"
    by blast
  have step: "Emit_disappear tv_location (Stored tv_reply)
      \<in> set (snd (client_step [tv_location \<mapsto> tv_reply] (Ev_notify tv_byebye))) \<and>
      tv_location \<notin> set Object_prototype_members"
    by (simp add: on_notify_def tv_lookups tv_location_own)
  have 2: "(\<exists>h. Stored tv_reply = Stored h \<and> [tv_location \<mapsto> tv_reply] tv_location = Some h) \<and>
      fst (client_step [tv_location \<mapsto> tv_reply] (Ev_notify tv_byebye)) tv_location = None"
    by (rule inst [THEN conjunct2, THEN conjunct2, THEN conjunct1, THEN spec, THEN spec,
          THEN spec, THEN spec, THEN mp, OF step])
  have bye: "map_of tv_byebye ''NTS'' = Some ''ssdp:byebye'' \<and>
      ((\<forall>l. map_of tv_byebye ''LOCATION'' = Some l \<longrightarrow>
             Map.empty l = (None :: SsdpHeaders option) \<and> l \<notin> set Object_prototype_members) \<or>
       (\<forall>t. map_of tv_byebye ''NT'' = Some t \<longrightarrow> t \<notin> set client_serviceTypes))"
    by (simp add: tv_byebye_lookup tv_location_own)
  have 3: "client_step Map.empty (Ev_notify tv_byebye) = (Map.empty, [])"
    by (rule inst [THEN conjunct2, THEN conjunct2, THEN conjunct2, THEN spec, THEN spec,
          THEN mp, OF bye])
  from 1 2 3 show ?thesis by simp
qed

text \<open>
  Claim C8 as stated counts the calls of \<^verbatim>\<open>refresh\<close> among the operations. After
  \<^verbatim>\<open>refresh\<close>, which clears the record and emits no "disappear", a second reply of
  the same device emits "found" for its location again.
\<close>

theorem client_found_again_after_refresh_counterexample:
  "\<not> found_once_until_disappear (observe Map.empty [Ev_found tv_reply, Op_refresh, Ev_found tv_reply])"
proof
  let ?b = "[In Op_refresh, Out (Do_search ''urn:dial-multiscreen-org:device:dial:1''),
             Out (Do_search ''urn:dial-multiscreen-org:service:dial:1''), In (Ev_found tv_reply)]"
  have tr: "observe Map.empty [Ev_found tv_reply, Op_refresh, Ev_found tv_reply] =
      [In (Ev_found tv_reply)] @ Out (Emit_found tv_location tv_reply) # ?b
        @ Out (Emit_found tv_location tv_reply) # []"
    by (simp add: on_found_def refresh_def tv_lookups)
  assume "found_once_until_disappear (observe Map.empty [Ev_found tv_reply, Op_refresh, Ev_found tv_reply])"
  then have "\<forall>a b c l h h'.
      observe Map.empty [Ev_found tv_reply, Op_refresh, Ev_found tv_reply]
        = a @ Out (Emit_found l h) # b @ Out (Emit_found l h') # c \<longrightarrow>
      (\<exists>r. Out (Emit_disappear l r) \<in> set b)"
    by (simp only: found_once_until_disappear_def)
  with tr have "\<exists>r. Out (Emit_disappear tv_location r) \<in> set ?b"
    by blast
  then show False by simp
qed

text \<open>
  A byebye with a tracked type for the location "constructor", which no "found" ever
  announced: \<^verbatim>\<open>this.services[location]\<close> reads the inherited member, so "disappear"
  is emitted with that member in the place of the headers, and the record is unchanged.
  A "found" for the same location is never recorded.
\<close>

lemma client_inherited_location:
  "client_step Map.empty (Ev_notify constructor_byebye)
     = (Map.empty, [Emit_disappear ''constructor'' Inherited]) \<and>
   client_step Map.empty
       (Ev_found [(''ST'', ''urn:dial-multiscreen-org:service:dial:1''),
                  (''LOCATION'', ''constructor'')])
     = (Map.empty, [])"
proof -
  have r: "services_read Map.empty ''constructor'' = Some Inherited"
    by (simp add: services_read_def Object_prototype_members_def)
  show ?thesis
    by (simp add: on_notify_def on_found_def constructor_byebye_def client_serviceTypes_def r)
qed

lemma router_reply_lookup:
  "map_of router_reply ''LOCATION'' = Some router_location"
  "map_of router_reply ''ST'' = Some ''upnp:rootdevice''"
  "map_of router_reply ''NT'' = None"
  "router_location \<noteq> []"
  by (simp_all add: router_reply_def router_location_def)

lemma router_unrecorded: "services_read Map.empty router_location = None"
  by (simp add: services_read_None router_location_def Object_prototype_members_def)

text \<open>
  Claim C7 lets a "found" event record a location only when the announced type is one
  of the two tracked types, as the handler of "notify" does. The handler of "found"
  does not read the type. On a client that has recorded nothing, the reply of a root
  device that is no DIAL device is recorded and emitted; the alive message of the same
  device, with the same type and location, is ignored.
\<close>

theorem client_found_any_type:
  "client_step Map.empty (Ev_found router_reply)
     = ([router_location \<mapsto> router_reply], [Emit_found router_location router_reply]) \<and>
   map_of router_reply ''ST'' = Some ''upnp:rootdevice'' \<and>
   map_of router_reply ''NT'' = None \<and>
   ''upnp:rootdevice'' \<notin> set client_serviceTypes \<and>
   client_step Map.empty
       (Ev_notify [(''NT'', ''upnp:rootdevice''), (''NTS'', ''ssdp:alive''),
                   (''LOCATION'', router_location)])
     = (Map.empty, [])"
  by (simp add: on_found_def on_notify_def router_reply_lookup router_unrecorded
        client_serviceTypes_def)


section \<open>The remote device\<close>

text \<open>
  Claim C10: when the device's application URL is absent or empty, or the application
  name is empty, \<^verbatim>\<open>getAppInfoXml\<close> and \<^verbatim>\<open>launchApp\<close> issue no HTTP request and
  invoke the callback exactly once, with a null result and an Error; so does
  \<^verbatim>\<open>stopApp\<close>, also when the pid is empty.
\<close>

theorem DialDevice_rejects_missing_arguments:
  "(applicationUrl dev = None \<or> applicationUrl dev = Some [] \<or> appName = [] \<longrightarrow>
      DialDevice_getAppInfoXml env dev appName =
        Ran [] [(None, Some (Error
          ''DIAL appName and DIAL Application-URL cannot be empty for getAppInfo'' None))] \<and>
      DialDevice_launchApp env dev appName launchData contentType =
        Ran [] [(None, Some (Error
          ''DIAL appName and DIAL Application-URL cannot be empty for launchApp'' None))]) \<and>
   (applicationUrl dev = None \<or> applicationUrl dev = Some [] \<or> appName = [] \<or> p = [] \<longrightarrow>
      DialDevice_stopApp env dev appName p =
        Ran [] [(None, Some (Error
          ''DIAL appName, pid and DIAL Application-URL cannot be empty for stopApp'' None))])"
proof (intro conjI impI)
  assume "applicationUrl dev = None \<or> applicationUrl dev = Some [] \<or> appName = []"
  then have "app_url dev appName = None"
    by (auto simp: app_url_def split: option.splits)
  then show "DialDevice_getAppInfoXml env dev appName =
        Ran [] [(None, Some (Error
          ''DIAL appName and DIAL Application-URL cannot be empty for getAppInfo'' None))]"
    and "DialDevice_launchApp env dev appName launchData contentType =
        Ran [] [(None, Some (Error
          ''DIAL appName and DIAL Application-URL cannot be empty for launchApp'' None))]"
    by (simp_all add: DialDevice_getAppInfoXml_def DialDevice_launchApp_def)
next
  assume "applicationUrl dev = None \<or> applicationUrl dev = Some [] \<or> appName = [] \<or> p = []"
  then have "stop_url dev appName p = None"
    by (auto simp: stop_url_def split: option.splits)
  then show "DialDevice_stopApp env dev appName p =
        Ran [] [(None, Some (Error
          ''DIAL appName, pid and DIAL Application-URL cannot be empty for stopApp'' None))]"
    by (simp add: DialDevice_stopApp_def)
qed

theorem DialDevice_rejects_missing_arguments_witness:
  "DialDevice_getAppInfoXml tv_env tv_device [] =
     Ran [] [(None, Some (Error
       ''DIAL appName and DIAL Application-URL cannot be empty for getAppInfo'' None))] \<and>
   DialDevice_launchApp tv_env (tv_device\<lparr> applicationUrl := None \<rparr>) ''YouTube'' (Some [0x76]) None =
     Ran [] [(None, Some (Error
       ''DIAL appName and DIAL Application-URL cannot be empty for launchApp'' None))] \<and>
   DialDevice_stopApp tv_env tv_device ''YouTube'' [] =
     Ran [] [(None, Some (Error
       ''DIAL appName, pid and DIAL Application-URL cannot be empty for stopApp'' None))]"
proof -
  have a: "applicationUrl tv_device = None \<or> applicationUrl tv_device = Some [] \<or> ([] :: string) = []"
    by simp
  have b: "applicationUrl (tv_device\<lparr> applicationUrl := None \<rparr>) = None \<or>
      applicationUrl (tv_device\<lparr> applicationUrl := None \<rparr>) = Some [] \<or> ''YouTube'' = []"
    by simp
  have c: "applicationUrl tv_device = None \<or> applicationUrl tv_device = Some [] \<or> ''YouTube'' = [] \<or>
      ([] :: string) = []"
    by simp
  note t = DialDevice_rejects_missing_arguments
  from t [where dev = tv_device and appName = "[]" and env = tv_env, THEN conjunct1, THEN mp, OF a]
  have 1: "DialDevice_getAppInfoXml tv_env tv_device [] =
     Ran [] [(None, Some (Error
       ''DIAL appName and DIAL Application-URL cannot be empty for getAppInfo'' None))]"
    by blast
  from t [where dev = "tv_device\<lparr> applicationUrl := None \<rparr>" and appName = "''YouTube''"
            and env = tv_env and launchData = "Some [0x76]" and contentType = None,
          THEN conjunct1, THEN mp, OF b]
  have 2: "DialDevice_launchApp tv_env (tv_device\<lparr> applicationUrl := None \<rparr>) ''YouTube'' (Some [0x76]) None =
     Ran [] [(None, Some (Error
       ''DIAL appName and DIAL Application-URL cannot be empty for launchApp'' None))]"
    by blast
  from t [where dev = tv_device and appName = "''YouTube''" and env = tv_env and p = "[]",
          THEN conjunct2, THEN mp, OF c]
  have 3: "DialDevice_stopApp tv_env tv_device ''YouTube'' [] =
     Ran [] [(None, Some (Error
       ''DIAL appName, pid and DIAL Application-URL cannot be empty for stopApp'' None))]"
    by blast
  from 1 2 3 show ?thesis by blast
qed

text \<open>
  Claim C9: a call of \<^verbatim>\<open>launchApp\<close> with a non-empty application URL and
  application name either throws at \<^verbatim>\<open>new URL\<close>, which rejects the URL, before any
  request is made, or issues one request and invokes the callback once. For that
  request: with no content type supplied the CONTENT-TYPE header is exactly
  \<^verbatim>\<open>text/plain; charset="utf-8"\<close>; the CONTENT-LENGTH header is
  \<^verbatim>\<open>Buffer.byteLength\<close> of the payload, and 0 when the payload is null or empty; a
  response with a status below 400 gives the callback the body, the chunks joined, and
  no error; a response with a status of 400 or more gives it null and an error whose
  code is that status in decimal.
\<close>

theorem DialDevice_launchApp_request_and_result:
  assumes base: "applicationUrl dev = Some base" "base \<noteq> []"
    and appName: "appName \<noteq> []"
  shows
    "(new_URL env (base @ ''/'' @ appName) = None \<and>
      DialDevice_launchApp env dev appName launchData contentType = Threw ''TypeError: Invalid URL'') \<or>
     (\<exists>options body result.
        DialDevice_launchApp env dev appName launchData contentType
          = Ran [Http_request options body] [result] \<and>
        (contentType = None \<longrightarrow>
           js_get (ro_headers options) ''CONTENT-TYPE''
             = JStr (''text/plain; charset='' @ dq @ ''utf-8'' @ dq)) \<and>
        js_get (ro_headers options) ''CONTENT-LENGTH''
          = JNum (int (case launchData of
                         None \<Rightarrow> 0
                       | Some d \<Rightarrow> if d = [] then 0 else Buffer_byteLength env d)) \<and>
        (\<forall>status chunks.
           http_send env (Http_request options body) = Http_response status chunks \<longrightarrow>
           (status < 400 \<longrightarrow> result = (Some (concat chunks), None)) \<and>
           (400 \<le> status \<longrightarrow> (\<exists>msg. result = (None, Some (Error msg (Some (decimal status))))))))"
proof (cases "new_URL env (base @ ''/'' @ appName)")
  case None
  from base appName have u: "app_url dev appName = Some (base @ ''/'' @ appName)"
    by (simp add: app_url_def)
  from None have "DialDevice_launchApp env dev appName launchData contentType
      = Threw ''TypeError: Invalid URL''"
    by (simp add: DialDevice_launchApp_def u)
  with None show ?thesis by blast
next
  case (Some appUrl)
  from base appName have u: "app_url dev appName = Some (base @ ''/'' @ appName)"
    by (simp add: app_url_def)
  let ?len = "case launchData of None \<Rightarrow> 0 | Some d \<Rightarrow> if d \<noteq> [] then Buffer_byteLength env d else 0"
  let ?options = "\<lparr> ro_host = u_hostname appUrl, ro_port = u_port appUrl,
      ro_path = u_pathname appUrl @ u_search appUrl, ro_method = ''POST'',
      ro_headers =
        [(''CONTENT-TYPE'', JStr (str_or contentType (''text/plain; charset='' @ dq @ ''utf-8'' @ dq))),
         (''CONTENT-LENGTH'', JNum (int ?len))] \<rparr>"
  let ?body = "case launchData of None \<Rightarrow> None | Some d \<Rightarrow> if d \<noteq> [] then Some d else None"
  let ?result = "case http_send env (Http_request ?options ?body) of
      Http_response status chunks \<Rightarrow>
        if 400 \<le> status then (None, Some (status_error (u_href appUrl) status))
        else (Some (concat chunks), None)
    | Http_error err \<Rightarrow> (None, Some err)"
  have run: "DialDevice_launchApp env dev appName launchData contentType
      = Ran [Http_request ?options ?body] [?result]"
    using Some by (simp add: DialDevice_launchApp_def u Let_def)
  have ct: "contentType = None \<longrightarrow>
      js_get (ro_headers ?options) ''CONTENT-TYPE''
        = JStr (''text/plain; charset='' @ dq @ ''utf-8'' @ dq)"
    by (simp add: js_get_def str_or_def)
  have cl: "js_get (ro_headers ?options) ''CONTENT-LENGTH''
      = JNum (int (case launchData of
                     None \<Rightarrow> 0
                   | Some d \<Rightarrow> if d = [] then 0 else Buffer_byteLength env d))"
    by (simp add: js_get_def split: option.splits)
  have res: "\<forall>status chunks.
      http_send env (Http_request ?options ?body) = Http_response status chunks \<longrightarrow>
      (status < 400 \<longrightarrow> ?result = (Some (concat chunks), None)) \<and>
      (400 \<le> status \<longrightarrow> (\<exists>msg. ?result = (None, Some (Error msg (Some (decimal status))))))"
    by (simp add: status_error_def)
  from run ct cl res show ?thesis by blast
qed

lemma tv_device_parsed:
  "applicationUrl tv_device = Some ''http://10.0.0.2:3000/dial/apps''"
  "new_URL tv_env (''http://10.0.0.2:3000/dial/apps'' @ ''/'' @ ''YouTube'') \<noteq> None"
  "new_URL tv_env_404 (''http://10.0.0.2:3000/dial/apps'' @ ''/'' @ ''YouTube'') \<noteq> None"
  by (simp_all add: tv_device_def tv_env_def tv_env_404_def tv_URL_def)

text \<open>
  The payload is "v=" followed by U+00E9: three code units, four bytes in UTF-8.
\<close>

lemma utf8_encode_example: "utf8_encode [0x76, 0x3D, 0xE9] = [0x76, 0x3D, 0xC3, 0xA9]"
  by (simp add: code_point_bytes_def lone_unit_def)

lemma utf8_encode_pair: "utf8_encode [0xD83D, 0xDE00] = [0xF0, 0x9F, 0x98, 0x80]"
  by (simp add: code_point_bytes_def)

theorem DialDevice_launchApp_request_and_result_witness:
  "(\<exists>options body.
      DialDevice_launchApp tv_env tv_device ''YouTube'' (Some [0x76, 0x3D, 0xE9]) None
        = Ran [Http_request options body] [(Some [0x6F, 0x6B], None)] \<and>
      js_get (ro_headers options) ''CONTENT-TYPE''
        = JStr (''text/plain; charset='' @ dq @ ''utf-8'' @ dq) \<and>
      js_get (ro_headers options) ''CONTENT-LENGTH'' = JNum 4) \<and>
   length [0x76, 0x3D, 0xE9 :: nat] = 3 \<and>
   (\<exists>options body msg.
      DialDevice_launchApp tv_env_404 tv_device ''YouTube'' None None
        = Ran [Http_request options body] [(None, Some (Error msg (Some ''404'')))] \<and>
      js_get (ro_headers options) ''CONTENT-LENGTH'' = JNum 0)"
proof -
  have nonempty: "''http://10.0.0.2:3000/dial/apps'' \<noteq> []" "''YouTube'' \<noteq> []"
    by simp_all
  from DialDevice_launchApp_request_and_result
         [OF tv_device_parsed(1) nonempty,
          where env = tv_env and launchData = "Some [0x76, 0x3D, 0xE9]" and contentType = None]
       tv_device_parsed(2)
  obtain options body result where
    run: "DialDevice_launchApp tv_env tv_device ''YouTube'' (Some [0x76, 0x3D, 0xE9]) None
            = Ran [Http_request options body] [result]"
    and ct: "js_get (ro_headers options) ''CONTENT-TYPE''
            = JStr (''text/plain; charset='' @ dq @ ''utf-8'' @ dq)"
    and cl: "js_get (ro_headers options) ''CONTENT-LENGTH''
            = JNum (int (Buffer_byteLength tv_env [0x76, 0x3D, 0xE9]))"
    and res: "\<forall>status chunks.
            http_send tv_env (Http_request options body) = Http_response status chunks \<longrightarrow>
            (status < 400 \<longrightarrow> result = (Some (concat chunks), None)) \<and>
            (400 \<le> status \<longrightarrow> (\<exists>msg. result = (None, Some (Error msg (Some (decimal status))))))"
    by auto
  have "http_send tv_env (Http_request options body) = Http_response 201 [[0x6F], [0x6B]]"
    by (simp add: tv_env_def)
  with res have "result = (Some (concat [[0x6F], [0x6B]]), None)"
    by auto
  with run have 1: "DialDevice_launchApp tv_env tv_device ''YouTube'' (Some [0x76, 0x3D, 0xE9]) None
      = Ran [Http_request options body] [(Some [0x6F, 0x6B], None)]"
    by simp
  from cl have 2: "js_get (ro_headers options) ''CONTENT-LENGTH'' = JNum 4"
    by (simp add: tv_env_def utf8_byteLength_def code_point_bytes_def lone_unit_def)
  from DialDevice_launchApp_request_and_result
         [OF tv_device_parsed(1) nonempty,
          where env = tv_env_404 and launchData = None and contentType = None]
       tv_device_parsed(3)
  obtain options' body' result' where
    run': "DialDevice_launchApp tv_env_404 tv_device ''YouTube'' None None
            = Ran [Http_request options' body'] [result']"
    and cl': "js_get (ro_headers options') ''CONTENT-LENGTH'' = JNum 0"
    and res': "\<forall>status chunks.
            http_send tv_env_404 (Http_request options' body') = Http_response status chunks \<longrightarrow>
            (status < 400 \<longrightarrow> result' = (Some (concat chunks), None)) \<and>
            (400 \<le> status \<longrightarrow> (\<exists>msg. result' = (None, Some (Error msg (Some (decimal status))))))"
    by auto
  have "http_send tv_env_404 (Http_request options' body') = Http_response 404 []"
    by (simp add: tv_env_404_def)
  with res' obtain msg where "result' = (None, Some (Error msg (Some (decimal 404))))"
    by auto
  moreover have "decimal 404 = ''404''"
    by (simp add: decimal.simps)
  ultimately have 3: "DialDevice_launchApp tv_env_404 tv_device ''YouTube'' None None
      = Ran [Http_request options' body'] [(None, Some (Error msg (Some ''404'')))]"
    using run' by simp
  from 1 ct 2 3 cl' show ?thesis
    by auto
qed

end
